theory Spec2Isabelle
  imports Complex_Main "HOL-Library.AList" "HOL-Library.Multiset"
begin

section \<open>Values handed over by the fetcher\<close>

text \<open>
  The engine is \<^verbatim>\<open>filter_20_percent_change\<close> of \<^verbatim>\<open>CONSCRAPERFINAL.py\<close>; the
  summary, the recipient rollup and the main block are those of \<^verbatim>\<open>CONSCRAPERV2.py\<close>,
  whose copy of the engine differs only in not storing the trend hint.

  The fetcher returns the list \<^verbatim>\<open>data["results"]\<close> of a decoded JSON document, so an
  award is any JSON value; a well-formed one is an object. Objects are kept as
  association lists read with \<open>map_of\<close>.

  Amounts are Python floats. They are modelled as real numbers: subtraction, division,
  comparison and summation are exact, NaN and the infinities do not exist, and the range
  of binary64 is not modelled. Only the addition of the accumulation loop is an argument
  of the model (\<open>add\<close> below), so that the loop can be read with exact addition and
  with the rounding addition of binary64.
\<close>

datatype json =
    JNull
  | JBool bool
  | JInt int
  | JFloat real
  | JStr string
  | JList "json list"
  | JObj "(string \<times> json) list"

datatype error = KeyError | ValueError | TypeError | ZeroDivisionError

text \<open>
  The conversion of a string by the builtins \<^verbatim>\<open>int\<close> and \<^verbatim>\<open>float\<close> is an argument
  of the model: \<open>None\<close> stands for the ValueError of a string that is not a number.
\<close>

record conv =
  int_str :: "string \<Rightarrow> int option"
  float_str :: "string \<Rightarrow> real option"

text \<open>\<^verbatim>\<open>award[name]\<close>: only an object can be subscripted with a string.\<close>

definition subscript :: "json \<Rightarrow> string \<Rightarrow> error + json" where
  "subscript award name =
     (case award of
        JObj items \<Rightarrow> (case map_of items name of None \<Rightarrow> Inl KeyError | Some v \<Rightarrow> Inr v)
      | _ \<Rightarrow> Inl TypeError)"

text \<open>\<^verbatim>\<open>award.get(name, "")\<close>, called on an award that is an object.\<close>

definition get_or_empty :: "json \<Rightarrow> string \<Rightarrow> json" where
  "get_or_empty award name =
     (case award of
        JObj items \<Rightarrow> (case map_of items name of None \<Rightarrow> JStr [] | Some v \<Rightarrow> v)
      | _ \<Rightarrow> JStr [])"

text \<open>
  \<^verbatim>\<open>v[:4]\<close>: strings and lists can be sliced. A dictionary raises TypeError or, from
  Python 3.12 on, KeyError; the loop catches both.
\<close>

definition slice4 :: "json \<Rightarrow> error + json" where
  "slice4 v =
     (case v of
        JStr s \<Rightarrow> Inr (JStr (take 4 s))
      | JList xs \<Rightarrow> Inr (JList (take 4 xs))
      | _ \<Rightarrow> Inl TypeError)"

text \<open>The builtin \<^verbatim>\<open>int\<close>; a float is truncated towards zero.\<close>

definition py_int :: "conv \<Rightarrow> json \<Rightarrow> error + int" where
  "py_int cv v =
     (case v of
        JStr s \<Rightarrow> (case int_str cv s of None \<Rightarrow> Inl ValueError | Some n \<Rightarrow> Inr n)
      | JInt n \<Rightarrow> Inr n
      | JBool b \<Rightarrow> Inr (if b then 1 else 0)
      | JFloat r \<Rightarrow> Inr (if 0 \<le> r then \<lfloor>r\<rfloor> else \<lceil>r\<rceil>)
      | _ \<Rightarrow> Inl TypeError)"

text \<open>The builtin \<^verbatim>\<open>float\<close>.\<close>

definition py_float :: "conv \<Rightarrow> json \<Rightarrow> error + real" where
  "py_float cv v =
     (case v of
        JStr s \<Rightarrow> (case float_str cv s of None \<Rightarrow> Inl ValueError | Some r \<Rightarrow> Inr r)
      | JInt n \<Rightarrow> Inr (of_int n)
      | JBool b \<Rightarrow> Inr (if b then 1 else 0)
      | JFloat r \<Rightarrow> Inr r
      | _ \<Rightarrow> Inl TypeError)"

text \<open>
  Dictionary keys. Lists and objects are unhashable; numbers and booleans that compare
  equal are the same key.
\<close>

datatype key = KNone | KNum real | KStr string

definition hash_key :: "json \<Rightarrow> error + key" where
  "hash_key v =
     (case v of
        JNull \<Rightarrow> Inr KNone
      | JBool b \<Rightarrow> Inr (KNum (if b then 1 else 0))
      | JInt n \<Rightarrow> Inr (KNum (of_int n))
      | JFloat r \<Rightarrow> Inr (KNum r)
      | JStr s \<Rightarrow> Inr (KStr s)
      | _ \<Rightarrow> Inl TypeError)"

section \<open>The accumulation loop of \<^verbatim>\<open>filter_20_percent_change\<close>\<close>

text \<open>\<^verbatim>\<open>int(award['action_date'][:4])\<close>\<close>

definition year_of :: "conv \<Rightarrow> json \<Rightarrow> error + int" where
  "year_of cv award =
     (case subscript award ''action_date'' of
        Inl e \<Rightarrow> Inl e
      | Inr d \<Rightarrow> (case slice4 d of Inl e \<Rightarrow> Inl e | Inr s \<Rightarrow> py_int cv s))"

text \<open>\<^verbatim>\<open>award['award_id']\<close>, used as a dictionary key.\<close>

definition award_key :: "json \<Rightarrow> error + key" where
  "award_key award =
     (case subscript award ''award_id'' of Inl e \<Rightarrow> Inl e | Inr v \<Rightarrow> hash_key v)"

text \<open>\<^verbatim>\<open>float(award['federal_action_obligation'])\<close>\<close>

definition amount_of :: "conv \<Rightarrow> json \<Rightarrow> error + real" where
  "amount_of cv award =
     (case subscript award ''federal_action_obligation'' of
        Inl e \<Rightarrow> Inl e
      | Inr v \<Rightarrow> py_float cv v)"

text \<open>
  Both dictionaries keep insertion order, which \<open>AList.update\<close> does as well: a known
  key is overwritten in place and a new key is appended.
\<close>

type_synonym years = "(int \<times> real) list"

record info =
  info_recipient_name :: json
  info_awarding_agency_code :: json
  info_trend :: json

record state =
  award_years :: "(key \<times> years) list"
  award_info :: "(key \<times> info) list"

text \<open>
  \<^verbatim>\<open>award_years[k]\<close> and then \<^verbatim>\<open>...[year]\<close> on the nested \<^verbatim>\<open>defaultdict\<close>: a
  missing inner dictionary is created empty, a missing cell is created as \<open>0.0\<close>.
\<close>

definition years_at :: "(key \<times> years) list \<Rightarrow> key \<Rightarrow> years" where
  "years_at ay k = (case map_of ay k of None \<Rightarrow> [] | Some ys \<Rightarrow> ys)"

definition touch_year :: "int \<Rightarrow> years \<Rightarrow> years" where
  "touch_year year ys = (case map_of ys year of None \<Rightarrow> AList.update year 0 ys | Some _ \<Rightarrow> ys)"

definition touch :: "key \<Rightarrow> int \<Rightarrow> (key \<times> years) list \<Rightarrow> (key \<times> years) list" where
  "touch k year ay = AList.update k (touch_year year (years_at ay k)) ay"

definition cell_value :: "years \<Rightarrow> int \<Rightarrow> real" where
  "cell_value ys year = (case map_of ys year of None \<Rightarrow> 0 | Some x \<Rightarrow> x)"

definition store_cell ::
  "(real \<Rightarrow> real \<Rightarrow> real) \<Rightarrow> key \<Rightarrow> int \<Rightarrow> real \<Rightarrow> (key \<times> years) list \<Rightarrow> (key \<times> years) list" where
  "store_cell add k year x ay =
     (let ys = years_at ay k
      in AList.update k (AList.update year (add (cell_value ys year) x) ys) ay)"

text \<open>
  The body of the \<^verbatim>\<open>try\<close> block, with the state it leaves behind and the exception it
  raised, if any. An augmented assignment \<^verbatim>\<open>a[i][j] += f(x)\<close> reads \<^verbatim>\<open>a[i][j]\<close>
  before it evaluates \<^verbatim>\<open>f(x)\<close>; on the \<^verbatim>\<open>defaultdict\<close> that read creates the cell.
\<close>

definition try_body ::
  "conv \<Rightarrow> (real \<Rightarrow> real \<Rightarrow> real) \<Rightarrow> state \<Rightarrow> json \<Rightarrow> state \<times> error option" where
  "try_body cv add st award =
     (case year_of cv award of
        Inl e \<Rightarrow> (st, Some e)
      | Inr year \<Rightarrow>
        (case award_key award of
           Inl e \<Rightarrow> (st, Some e)
         | Inr k \<Rightarrow>
           (let st1 = st\<lparr>award_years := touch k year (award_years st)\<rparr>
            in (case amount_of cv award of
                  Inl e \<Rightarrow> (st1, Some e)
                | Inr x \<Rightarrow>
                  (st1\<lparr>award_years := store_cell add k year x (award_years st1),
                       award_info := AList.update k
                         \<lparr>info_recipient_name = get_or_empty award ''recipient_name'',
                          info_awarding_agency_code = get_or_empty award ''awarding_agency_code'',
                          info_trend = get_or_empty award ''trend''\<rparr> (award_info st1)\<rparr>,
                   None)))))"

text \<open>\<^verbatim>\<open>except (KeyError, ValueError, TypeError): continue\<close>\<close>

definition caught :: "error \<Rightarrow> bool" where
  "caught e = (e = KeyError \<or> e = ValueError \<or> e = TypeError)"

definition process_award ::
  "conv \<Rightarrow> (real \<Rightarrow> real \<Rightarrow> real) \<Rightarrow> state \<Rightarrow> json \<Rightarrow> error + state" where
  "process_award cv add st award =
     (case try_body cv add st award of
        (st', None) \<Rightarrow> Inr st'
      | (st', Some e) \<Rightarrow> if caught e then Inr st' else Inl e)"

fun accumulate_from ::
  "conv \<Rightarrow> (real \<Rightarrow> real \<Rightarrow> real) \<Rightarrow> state \<Rightarrow> json list \<Rightarrow> error + state" where
  "accumulate_from cv add st [] = Inr st"
| "accumulate_from cv add st (award # data) =
     (case process_award cv add st award of
        Inl e \<Rightarrow> Inl e
      | Inr st' \<Rightarrow> accumulate_from cv add st' data)"

definition empty_state :: state where
  "empty_state = \<lparr>award_years = [], award_info = []\<rparr>"

definition accumulate :: "conv \<Rightarrow> (real \<Rightarrow> real \<Rightarrow> real) \<Rightarrow> json list \<Rightarrow> error + state" where
  "accumulate cv add data = accumulate_from cv add empty_state data"

section \<open>The classification loop of \<^verbatim>\<open>filter_20_percent_change\<close>\<close>

text \<open>
  \<^verbatim>\<open>round(x, 2)\<close>: the closest multiple of \<open>1/100\<close>, a tie going to the even
  multiple.
\<close>

definition round_half_even :: "real \<Rightarrow> int" where
  "round_half_even x =
     (let f = \<lfloor>x\<rfloor>; d = x - of_int f
      in if d < 1 / 2 then f else if 1 / 2 < d then f + 1 else if even f then f else f + 1)"

definition round2 :: "real \<Rightarrow> real" where
  "round2 x = of_int (round_half_even (x * 100)) / 100"

text \<open>
  \<^verbatim>\<open>[current_year - i for i in range(5, 0, -1)]\<close>: \<^verbatim>\<open>range(5, 0, -1)\<close> counts
  5, 4, 3, 2, 1. The current year is the argument \<open>current_year\<close>.
\<close>

definition last_5_years :: "int \<Rightarrow> int list" where
  "last_5_years current_year = map (\<lambda>i. current_year - i) [5, 4, 3, 2, 1]"

text \<open>Division raises on a zero divisor.\<close>

definition py_div :: "real \<Rightarrow> real \<Rightarrow> error + real" where
  "py_div a b = (if b = 0 then Inl ZeroDivisionError else Inr (a / b))"

text \<open>
  An output row. The columns \<^verbatim>\<open>funding_<year>\<close> are kept as one association list
  from the year to the value.
\<close>

record row =
  award_id :: key
  recipient_name :: json
  awarding_agency_code :: json
  first_year :: int
  first_amount :: real
  last_year :: int
  last_amount :: real
  change_percent :: real
  trend :: string
  total_5yr_funding :: real
  funding :: "(int \<times> real) list"
  abs_change :: real

text \<open>
  \<^verbatim>\<open>sorted(years.items())[-3:]\<close>. The keys of a dictionary are distinct, so the order
  of the pairs is the order of their years.
\<close>

definition last_3 :: "years \<Rightarrow> years" where
  "last_3 ys = (let sorted_years = sort_key fst ys in drop (length sorted_years - 3) sorted_years)"

text \<open>The row dictionary of an award that passed the threshold.\<close>

definition trend_row ::
  "int \<Rightarrow> key \<Rightarrow> years \<Rightarrow> info \<Rightarrow> int \<times> real \<Rightarrow> int \<times> real \<Rightarrow> real \<Rightarrow> real \<Rightarrow> row" where
  "trend_row current_year k ys i first_entry last_entry change total_5yr =
     \<lparr>award_id = k,
      recipient_name = info_recipient_name i,
      awarding_agency_code = info_awarding_agency_code i,
      first_year = fst first_entry,
      first_amount = snd first_entry,
      last_year = fst last_entry,
      last_amount = snd last_entry,
      change_percent = round2 (change * 100),
      trend = (if 0 < change then ''Increase'' else ''Decrease''),
      total_5yr_funding = round2 total_5yr,
      funding = map (\<lambda>y. (y, round2 (cell_value ys y))) (last_5_years current_year),
      abs_change = \<bar>snd last_entry - snd first_entry\<bar>\<rparr>"

text \<open>
  One round of the loop over \<^verbatim>\<open>award_years.items()\<close>: \<open>Inr None\<close> is
  \<^verbatim>\<open>continue\<close> or a change below the threshold, \<open>Inr (Some r)\<close> is the appended row.
  The two index reads come after the length check, so neither can raise.
\<close>

definition classify :: "int \<Rightarrow> (key \<times> info) list \<Rightarrow> key \<times> years \<Rightarrow> error + row option" where
  "classify current_year infos item =
     (case item of (k, ys) \<Rightarrow>
        let last_3_years = last_3 ys
        in if length last_3_years < 2 then Inr None
           else
             (let first_entry = hd last_3_years; last_entry = last last_3_years
              in if snd first_entry = 0 then Inr None
                 else
                   (case py_div (snd last_entry - snd first_entry) (snd first_entry) of
                      Inl e \<Rightarrow> Inl e
                    | Inr change \<Rightarrow>
                      let total_5yr = sum_list (map (cell_value ys) (last_5_years current_year))
                      in if 0.2 \<le> \<bar>change\<bar> then
                           (case map_of infos k of
                              None \<Rightarrow> Inl KeyError
                            | Some i \<Rightarrow>
                              Inr (Some (trend_row current_year k ys i first_entry last_entry change total_5yr)))
                         else Inr None)))"

fun trend_rows :: "int \<Rightarrow> (key \<times> info) list \<Rightarrow> (key \<times> years) list \<Rightarrow> error + row list" where
  "trend_rows current_year infos [] = Inr []"
| "trend_rows current_year infos (item # items) =
     (case classify current_year infos item of
        Inl e \<Rightarrow> Inl e
      | Inr r \<Rightarrow>
        (case trend_rows current_year infos items of
           Inl e \<Rightarrow> Inl e
         | Inr rows \<Rightarrow> Inr (case r of None \<Rightarrow> rows | Some x \<Rightarrow> x # rows)))"

text \<open>
  \<^verbatim>\<open>filtered.sort(key=lambda x: x['change_percent'], reverse=True)\<close>: descending, and
  rows of equal key keep their order.
\<close>

definition sort_desc :: "('a \<Rightarrow> real) \<Rightarrow> 'a list \<Rightarrow> 'a list" where
  "sort_desc f xs = sort_key (\<lambda>x. - f x) xs"

text \<open>The engine, read with exact addition in its accumulation loop.\<close>

definition filter_20_percent_change ::
  "conv \<Rightarrow> int \<Rightarrow> json list \<Rightarrow> error + (row list \<times> int list)" where
  "filter_20_percent_change cv current_year data =
     (case accumulate cv (+) data of
        Inl e \<Rightarrow> Inl e
      | Inr st \<Rightarrow>
        (case trend_rows current_year (award_info st) (award_years st) of
           Inl e \<Rightarrow> Inl e
         | Inr filtered \<Rightarrow> Inr (sort_desc change_percent filtered, last_5_years current_year)))"

section \<open>The reports of \<^verbatim>\<open>CONSCRAPERV2.py\<close>\<close>

text \<open>\<^verbatim>\<open>str.lower\<close> on ASCII text.\<close>

definition lower_char :: "char \<Rightarrow> char" where
  "lower_char c =
     (case map_of (zip ''ABCDEFGHIJKLMNOPQRSTUVWXYZ'' ''abcdefghijklmnopqrstuvwxyz'') c of
        None \<Rightarrow> c
      | Some d \<Rightarrow> d)"

definition py_lower :: "string \<Rightarrow> string" where
  "py_lower s = map lower_char s"

text \<open>
  \<^verbatim>\<open>if args.trend_only != "both": filtered_awards = [a for a in filtered_awards
  if a["trend"].lower() == args.trend_only]\<close>
\<close>

definition apply_trend_only :: "string \<Rightarrow> row list \<Rightarrow> row list" where
  "apply_trend_only trend_only filtered_awards =
     (if trend_only \<noteq> ''both''
      then filter (\<lambda>a. py_lower (trend a) = trend_only) filtered_awards
      else filtered_awards)"

text \<open>A dictionary built by assigning \<open>f y\<close> to the key of each \<open>y\<close> in turn.\<close>

definition dict_of_keys :: "(int \<Rightarrow> real) \<Rightarrow> int list \<Rightarrow> (int \<times> real) list" where
  "dict_of_keys f ys = fold (\<lambda>y t. AList.update y (f y) t) ys []"

text \<open>\<^verbatim>\<open>award.get(f"funding_{y}", 0)\<close>\<close>

definition funding_get :: "row \<Rightarrow> int \<Rightarrow> real" where
  "funding_get award y = cell_value (funding award) y"

text \<open>\<^verbatim>\<open>for y in last_5_years: totals[y] += award.get(f"funding_{y}", 0)\<close>\<close>

definition add_funding :: "int list \<Rightarrow> row \<Rightarrow> (int \<times> real) list \<Rightarrow> (int \<times> real) list" where
  "add_funding last_5 award totals =
     fold (\<lambda>y t. AList.update y (cell_value t y + funding_get award y) t) last_5 totals"

record summary =
  summary_funding :: "(int \<times> real) list"
  summary_total_5yr_funding :: real
  summary_award_count :: nat

definition summary_totals :: "int list \<Rightarrow> row list \<Rightarrow> (int \<times> real) list \<times> real" where
  "summary_totals last_5 data =
     fold (\<lambda>award (totals_by_year, total_funding).
             (add_funding last_5 award totals_by_year, total_funding + total_5yr_funding award))
          data (dict_of_keys (\<lambda>y. 0) last_5, 0)"

definition save_summary_csv :: "row list \<Rightarrow> int list \<Rightarrow> summary" where
  "save_summary_csv data last_5 =
     (case summary_totals last_5 data of
        (totals_by_year, total_funding) \<Rightarrow>
          \<lparr>summary_funding = dict_of_keys (\<lambda>y. round2 (cell_value totals_by_year y)) last_5,
           summary_total_5yr_funding = round2 total_funding,
           summary_award_count = length data\<rparr>)"

text \<open>The per-recipient entry of the \<^verbatim>\<open>defaultdict\<close> in \<^verbatim>\<open>save_recipient_summary\<close>.\<close>

record recipient =
  rc_award_count :: nat
  rc_total_5yr_funding :: real
  rc_sum_change_percent :: real
  rc_trends :: "string list"
  rc_funding :: "(int \<times> real) list"

definition new_recipient :: "int list \<Rightarrow> recipient" where
  "new_recipient last_5 =
     \<lparr>rc_award_count = 0, rc_total_5yr_funding = 0, rc_sum_change_percent = 0,
      rc_trends = [], rc_funding = dict_of_keys (\<lambda>y. 0) last_5\<rparr>"

text \<open>
  One round of the loop over the rows. The recipient name is used as a dictionary key,
  which raises on an unhashable value.
\<close>

definition add_recipient ::
  "int list \<Rightarrow> (key \<times> recipient) list \<Rightarrow> row \<Rightarrow> error + (key \<times> recipient) list" where
  "add_recipient last_5 recipients award =
     (case hash_key (recipient_name award) of
        Inl e \<Rightarrow> Inl e
      | Inr rec \<Rightarrow>
        (let r = (case map_of recipients rec of None \<Rightarrow> new_recipient last_5 | Some r \<Rightarrow> r)
         in Inr (AList.update rec
                   (r\<lparr>rc_award_count := rc_award_count r + 1,
                      rc_total_5yr_funding := rc_total_5yr_funding r + total_5yr_funding award,
                      rc_sum_change_percent := rc_sum_change_percent r + change_percent award,
                      rc_trends := rc_trends r @ [trend award],
                      rc_funding := add_funding last_5 award (rc_funding r)\<rparr>)
                   recipients)))"

fun group_recipients ::
  "int list \<Rightarrow> (key \<times> recipient) list \<Rightarrow> row list \<Rightarrow> error + (key \<times> recipient) list" where
  "group_recipients last_5 recipients [] = Inr recipients"
| "group_recipients last_5 recipients (award # data) =
     (case add_recipient last_5 recipients award of
        Inl e \<Rightarrow> Inl e
      | Inr recipients' \<Rightarrow> group_recipients last_5 recipients' data)"

text \<open>
  \<^verbatim>\<open>max(iterable, key=f)\<close> keeps the first of the greatest items and raises on an
  empty iterable.
\<close>

fun py_max_key :: "('a \<Rightarrow> nat) \<Rightarrow> 'a list \<Rightarrow> error + 'a" where
  "py_max_key f [] = Inl ValueError"
| "py_max_key f (x # xs) = Inr (fold (\<lambda>y best. if f best < f y then y else best) xs x)"

text \<open>
  \<^verbatim>\<open>max(set(trends), key=trends.count) if trends else ""\<close>. The order in which a
  Python set of strings is iterated depends on the hash of the strings; it is the
  argument \<open>set_iter\<close>, which lists the distinct items of its argument.
\<close>

definition major_trend :: "(string list \<Rightarrow> string list) \<Rightarrow> string list \<Rightarrow> error + string" where
  "major_trend set_iter trends =
     (if trends \<noteq> [] then py_max_key (count_list trends) (set_iter trends) else Inr [])"

record pivot =
  pv_recipient_name :: key
  pv_award_count :: nat
  pv_total_5yr_funding :: real
  pv_average_change_percent :: real
  pv_major_trend :: string
  pv_funding :: "(int \<times> real) list"

definition pivot_row ::
  "(string list \<Rightarrow> string list) \<Rightarrow> int list \<Rightarrow> key \<times> recipient \<Rightarrow> error + pivot" where
  "pivot_row set_iter last_5 item =
     (case item of (rec, r) \<Rightarrow>
        let avg_change =
              (if rc_award_count r \<noteq> 0
               then round2 (rc_sum_change_percent r / of_nat (rc_award_count r)) else 0)
        in (case major_trend set_iter (rc_trends r) of
              Inl e \<Rightarrow> Inl e
            | Inr t \<Rightarrow>
              Inr \<lparr>pv_recipient_name = rec,
                   pv_award_count = rc_award_count r,
                   pv_total_5yr_funding = round2 (rc_total_5yr_funding r),
                   pv_average_change_percent = avg_change,
                   pv_major_trend = t,
                   pv_funding = dict_of_keys (\<lambda>y. round2 (cell_value (rc_funding r) y)) last_5\<rparr>))"

fun pivot_rows ::
  "(string list \<Rightarrow> string list) \<Rightarrow> int list \<Rightarrow> (key \<times> recipient) list \<Rightarrow> error + pivot list" where
  "pivot_rows set_iter last_5 [] = Inr []"
| "pivot_rows set_iter last_5 (item # items) =
     (case pivot_row set_iter last_5 item of
        Inl e \<Rightarrow> Inl e
      | Inr p \<Rightarrow>
        (case pivot_rows set_iter last_5 items of Inl e \<Rightarrow> Inl e | Inr ps \<Rightarrow> Inr (p # ps)))"

definition save_recipient_summary ::
  "(string list \<Rightarrow> string list) \<Rightarrow> row list \<Rightarrow> int list \<Rightarrow> error + pivot list" where
  "save_recipient_summary set_iter data last_5 =
     (case group_recipients last_5 [] data of
        Inl e \<Rightarrow> Inl e
      | Inr recipients \<Rightarrow>
        (case pivot_rows set_iter last_5 recipients of
           Inl e \<Rightarrow> Inl e
         | Inr pivot_data \<Rightarrow> Inr (sort_desc pv_total_5yr_funding pivot_data)))"

text \<open>
  The main block: nothing is written for an empty fetch; otherwise the engine runs, the
  trend filter is applied, and the summary and the recipient summary are computed from
  the rows that are left.
\<close>

record reports =
  report_awards :: "row list"
  report_summary :: summary
  report_recipients :: "error + pivot list"

definition run_main ::
  "conv \<Rightarrow> (string list \<Rightarrow> string list) \<Rightarrow> int \<Rightarrow> string \<Rightarrow> json list \<Rightarrow> error + reports option" where
  "run_main cv set_iter current_year trend_only all_awards =
     (if all_awards = [] then Inr None
      else
        (case filter_20_percent_change cv current_year all_awards of
           Inl e \<Rightarrow> Inl e
         | Inr (filtered, last_5) \<Rightarrow>
           (let filtered_awards = apply_trend_only trend_only filtered
            in Inr (Some \<lparr>report_awards = filtered_awards,
                          report_summary = save_summary_csv filtered_awards last_5,
                          report_recipients =
                            save_recipient_summary set_iter filtered_awards last_5\<rparr>))))"

section \<open>Binary64 addition\<close>

text \<open>
  The sum of two finite doubles is the exact sum rounded to the nearest double, a tie
  going to the even significand. The doubles around \<open>x\<close> are the multiples of
  \<open>2 ^ e\<close> with \<open>e = max (- 1074) (\<lfloor>log\<^sub>2 \<bar>x\<bar>\<rfloor> - 52)\<close>: 53 significant bits, and the
  fixed spacing of the subnormal range at the bottom. Overflow to infinity is not
  modelled.
\<close>

text \<open>The number of binary digits of a positive integer, as \<^verbatim>\<open>int.bit_length\<close>.\<close>

function bit_length :: "int \<Rightarrow> nat" where
  "bit_length n = (if n \<le> 0 then 0 else Suc (bit_length (n div 2)))"
  by pat_completeness auto
termination
  by (relation "measure nat") auto

text \<open>\<open>\<lfloor>log\<^sub>2 \<bar>x\<bar>\<rfloor>\<close> for \<open>x \<noteq> 0\<close>.\<close>

definition floor_log2 :: "real \<Rightarrow> int" where
  "floor_log2 x =
     (if 1 \<le> \<bar>x\<bar> then int (bit_length \<lfloor>\<bar>x\<bar>\<rfloor>) - 1
      else - int (bit_length (\<lceil>1 / \<bar>x\<bar>\<rceil> - 1)))"

definition round_double :: "real \<Rightarrow> real" where
  "round_double x =
     (if x = 0 then 0
      else
        (let e = max (- 1074) (floor_log2 x - 52)
         in of_int (round_half_even (x / 2 powi e)) * 2 powi e))"

definition double_add :: "real \<Rightarrow> real \<Rightarrow> real" where
  "double_add x y = round_double (x + y)"

section \<open>A conversion for worked examples\<close>

text \<open>
  \<open>plain_conv\<close> reads a non-empty string of ASCII digits as \<^verbatim>\<open>int\<close> and
  \<^verbatim>\<open>float\<close> do and rejects a string with any other character. The examples use
  only strings on which this is what Python does.
\<close>

definition digit_value :: "char \<Rightarrow> int option" where
  "digit_value c = map_of (zip ''0123456789'' [0, 1, 2, 3, 4, 5, 6, 7, 8, 9]) c"

fun digits_value :: "int \<Rightarrow> string \<Rightarrow> int option" where
  "digits_value acc [] = Some acc"
| "digits_value acc (c # cs) =
     (case digit_value c of None \<Rightarrow> None | Some d \<Rightarrow> digits_value (10 * acc + d) cs)"

definition plain_int :: "string \<Rightarrow> int option" where
  "plain_int s = (if s = [] then None else digits_value 0 s)"

definition plain_conv :: conv where
  "plain_conv = \<lparr>int_str = plain_int, float_str = (\<lambda>s. map_option of_int (plain_int s))\<rparr>"

text \<open>An award object with the three fields the engine needs.\<close>

definition plain_award :: "string \<Rightarrow> string \<Rightarrow> json \<Rightarrow> json" where
  "plain_award ident date amount =
     JObj [(''award_id'', JStr ident), (''action_date'', JStr date),
           (''federal_action_obligation'', amount)]"

section \<open>Auxiliary notions\<close>

text \<open>The state after one round of the accumulation loop.\<close>

definition step :: "conv \<Rightarrow> (real \<Rightarrow> real \<Rightarrow> real) \<Rightarrow> state \<Rightarrow> json \<Rightarrow> state" where
  "step cv add st a = fst (try_body cv add st a)"

text \<open>
  What the accumulation loop maintains: the award identifiers are distinct keys, and an
  award with a non-zero cell has its descriptive entry.
\<close>

definition sound_state :: "state \<Rightarrow> bool" where
  "sound_state st \<longleftrightarrow>
     distinct (map fst (award_years st)) \<and>
     (\<forall>k ys. map_of (award_years st) k = Some ys \<longrightarrow>
        (\<exists>y x. (y, x) \<in> set ys \<and> x \<noteq> 0) \<longrightarrow> map_of (award_info st) k \<noteq> None)"

text \<open>
  The change over the trailing window and the test an award has to pass, as
  \<open>classify\<close> computes them.
\<close>

definition window_change :: "years \<Rightarrow> real" where
  "window_change ys = (snd (last (last_3 ys)) - snd (hd (last_3 ys))) / snd (hd (last_3 ys))"

definition qualifies :: "years \<Rightarrow> bool" where
  "qualifies ys \<longleftrightarrow> 2 \<le> length (last_3 ys) \<and> snd (hd (last_3 ys)) \<noteq> 0 \<and> 0.2 \<le> \<bar>window_change ys\<bar>"

text \<open>An award with its trend hint removed.\<close>

definition without_trend :: "json \<Rightarrow> json" where
  "without_trend a =
     (case a of JObj items \<Rightarrow> JObj (filter (\<lambda>item. fst item \<noteq> ''trend'') items) | _ \<Rightarrow> a)"

text \<open>A state with the stored trend hints blanked.\<close>

definition blank_trend :: "key \<times> info \<Rightarrow> key \<times> info" where
  "blank_trend p = (fst p, (snd p)\<lparr>info_trend := JNull\<rparr>)"

definition blank_trends :: "state \<Rightarrow> state" where
  "blank_trends st = st\<lparr>award_info := map blank_trend (award_info st)\<rparr>"

text \<open>
  The accumulator read as the map from (identifier, year) to the cumulative total.
\<close>

definition cells :: "state \<Rightarrow> key \<times> int \<Rightarrow> real option" where
  "cells st c = (case map_of (award_years st) (fst c) of None \<Rightarrow> None | Some ys \<Rightarrow> map_of ys (snd c))"

text \<open>
  What a record does to that map: nothing, or create its cell, or create its cell and
  add its amount.
\<close>

definition effect :: "conv \<Rightarrow> json \<Rightarrow> ((key \<times> int) \<times> real option) option" where
  "effect cv a =
     (case year_of cv a of
        Inl e \<Rightarrow> None
      | Inr y \<Rightarrow>
        (case award_key a of
           Inl e \<Rightarrow> None
         | Inr k \<Rightarrow> Some ((k, y), (case amount_of cv a of Inl e \<Rightarrow> None | Inr x \<Rightarrow> Some x))))"

definition touch_cell :: "(key \<times> int \<Rightarrow> real option) \<Rightarrow> key \<times> int \<Rightarrow> key \<times> int \<Rightarrow> real option" where
  "touch_cell m c = (case m c of None \<Rightarrow> m(c \<mapsto> 0) | Some v \<Rightarrow> m)"

definition add_cell ::
  "(real \<Rightarrow> real \<Rightarrow> real) \<Rightarrow> (key \<times> int \<Rightarrow> real option) \<Rightarrow> key \<times> int \<Rightarrow> real \<Rightarrow> key \<times> int \<Rightarrow> real option" where
  "add_cell add m c x = m(c \<mapsto> add (case m c of None \<Rightarrow> 0 | Some v \<Rightarrow> v) x)"

definition cells_step ::
  "conv \<Rightarrow> (real \<Rightarrow> real \<Rightarrow> real) \<Rightarrow> json \<Rightarrow> (key \<times> int \<Rightarrow> real option) \<Rightarrow> key \<times> int \<Rightarrow> real option" where
  "cells_step cv add a m =
     (case effect cv a of
        None \<Rightarrow> m
      | Some (c, None) \<Rightarrow> touch_cell m c
      | Some (c, Some x) \<Rightarrow> add_cell add m c x)"


text \<open>The trend labels of the rows of one recipient, in the order of the rows.\<close>

definition group_labels :: "row list \<Rightarrow> key \<Rightarrow> string list" where
  "group_labels data rec = map trend (filter (\<lambda>a. hash_key (recipient_name a) = Inr rec) data)"

text \<open>The labels collected so far for a recipient.\<close>

definition trends_of :: "(key \<times> recipient) list \<Rightarrow> key \<Rightarrow> string list" where
  "trends_of recipients rec = (case map_of recipients rec of None \<Rightarrow> [] | Some r \<Rightarrow> rc_trends r)"

text \<open>A row for worked examples of the rollups.\<close>

definition plain_row :: "string \<Rightarrow> string \<Rightarrow> string \<Rightarrow> real \<Rightarrow> row" where
  "plain_row ident rec label pct =
     \<lparr>award_id = KStr ident, recipient_name = JStr rec, awarding_agency_code = JStr ''097'',
      first_year = 2021, first_amount = 100, last_year = 2022, last_amount = 100 + pct,
      change_percent = pct, trend = label, total_5yr_funding = 200 + pct,
      funding = [(2021, 100), (2022, 100 + pct)], abs_change = \<bar>pct\<bar>\<rparr>"

section \<open>The accumulation loop never raises\<close>

lemma sound_stateD:
  "sound_state st \<Longrightarrow> map_of (award_years st) k = Some ys \<Longrightarrow> (y, x) \<in> set ys \<Longrightarrow> x \<noteq> 0
     \<Longrightarrow> map_of (award_info st) k \<noteq> None"
  unfolding sound_state_def by blast

lemma subscript_caught: "subscript a n = Inl e \<Longrightarrow> caught e"
  by (auto simp: subscript_def caught_def split: json.splits option.splits)

lemma year_of_caught: "year_of cv a = Inl e \<Longrightarrow> caught e"
  by (auto simp: year_of_def slice4_def py_int_def caught_def
      split: sum.splits json.splits option.splits dest: subscript_caught)

lemma award_key_caught: "award_key a = Inl e \<Longrightarrow> caught e"
  by (auto simp: award_key_def hash_key_def caught_def
      split: sum.splits json.splits dest: subscript_caught)

lemma amount_of_caught: "amount_of cv a = Inl e \<Longrightarrow> caught e"
  by (auto simp: amount_of_def py_float_def caught_def
      split: sum.splits json.splits option.splits dest: subscript_caught)

lemma try_body_caught: "try_body cv add st a = (st', Some e) \<Longrightarrow> caught e"
  by (auto simp: try_body_def Let_def split: sum.splits
      dest: year_of_caught award_key_caught amount_of_caught)

lemma process_award_step: "process_award cv add st a = Inr (step cv add st a)"
proof (cases "try_body cv add st a")
  case (Pair st' r)
  then show ?thesis
    by (cases r) (auto simp: process_award_def step_def dest: try_body_caught)
qed

lemma accumulate_from_foldl:
  "accumulate_from cv add st data = Inr (foldl (step cv add) st data)"
  by (induction data arbitrary: st) (simp_all add: process_award_step)

lemma accumulate_foldl: "accumulate cv add data = Inr (foldl (step cv add) empty_state data)"
  by (simp add: accumulate_def accumulate_from_foldl)

lemma step_cases:
  "step cv add st a =
     (case year_of cv a of
        Inl e \<Rightarrow> st
      | Inr year \<Rightarrow>
        (case award_key a of
           Inl e \<Rightarrow> st
         | Inr k \<Rightarrow>
           (case amount_of cv a of
              Inl e \<Rightarrow> st\<lparr>award_years := touch k year (award_years st)\<rparr>
            | Inr x \<Rightarrow>
              st\<lparr>award_years := store_cell add k year x (touch k year (award_years st)),
                 award_info := AList.update k
                   \<lparr>info_recipient_name = get_or_empty a ''recipient_name'',
                    info_awarding_agency_code = get_or_empty a ''awarding_agency_code'',
                    info_trend = get_or_empty a ''trend''\<rparr> (award_info st)\<rparr>)))"
  by (simp add: step_def try_body_def Let_def split: sum.splits)

lemma map_of_touch:
  "map_of (touch k y ay) = (map_of ay)(k \<mapsto> touch_year y (years_at ay k))"
  by (simp add: touch_def update_conv')

lemma map_of_store_cell:
  "map_of (store_cell add k y x ay) =
     (map_of ay)(k \<mapsto> AList.update y (add (cell_value (years_at ay k) y) x) (years_at ay k))"
  by (simp add: store_cell_def Let_def update_conv')

lemma distinct_touch: "distinct (map fst ay) \<Longrightarrow> distinct (map fst (touch k y ay))"
  by (simp add: touch_def distinct_update)

lemma distinct_store_cell: "distinct (map fst ay) \<Longrightarrow> distinct (map fst (store_cell add k y x ay))"
  by (simp add: store_cell_def Let_def distinct_update)

lemma set_touch_year: "set (touch_year y ys) \<subseteq> insert (y, 0) (set ys)"
proof (cases "map_of ys y")
  case None
  have "set (AList.update y 0 zs) \<subseteq> insert (y, 0) (set zs)" for zs :: years
    by (induction zs) auto
  with None show ?thesis by (simp add: touch_year_def)
next
  case (Some a)
  then show ?thesis by (auto simp: touch_year_def)
qed

lemma years_at_touch [simp]: "years_at (touch k y ay) k = touch_year y (years_at ay k)"
  by (simp add: years_at_def map_of_touch)

lemma sound_touch:
  assumes s: "sound_state st"
  shows "sound_state (st\<lparr>award_years := touch k y (award_years st)\<rparr>)"
  unfolding sound_state_def
proof (intro conjI allI impI)
  show "distinct (map fst (award_years (st\<lparr>award_years := touch k y (award_years st)\<rparr>)))"
    using s by (simp add: sound_state_def distinct_touch)
next
  fix k' ys
  assume m: "map_of (award_years (st\<lparr>award_years := touch k y (award_years st)\<rparr>)) k' = Some ys"
    and nz: "\<exists>y x. (y, x) \<in> set ys \<and> x \<noteq> 0"
  from nz obtain y' x' where in_ys: "(y', x') \<in> set ys" and x': "x' \<noteq> 0" by blast
  have "map_of (award_info st) k' \<noteq> None"
  proof (cases "k' = k")
    case False
    with m have "map_of (award_years st) k' = Some ys" by (simp add: map_of_touch)
    then show ?thesis using s in_ys x' sound_stateD by blast
  next
    case True
    with m have ys: "ys = touch_year y (years_at (award_years st) k)"
      by (simp add: map_of_touch)
    with in_ys x' set_touch_year[of y "years_at (award_years st) k"]
    have in_old: "(y', x') \<in> set (years_at (award_years st) k)" by auto
    then obtain zs where zs: "map_of (award_years st) k = Some zs" "(y', x') \<in> set zs"
      by (cases "map_of (award_years st) k") (simp_all add: years_at_def)
    show ?thesis using s zs x' True by (auto dest: sound_stateD)
  qed
  then show "map_of (award_info (st\<lparr>award_years := touch k y (award_years st)\<rparr>)) k' \<noteq> None"
    by simp
qed

lemma sound_store:
  assumes s: "sound_state st"
  shows "sound_state (st\<lparr>award_years := store_cell add k y x (touch k y (award_years st)),
                          award_info := AList.update k i (award_info st)\<rparr>)"
  unfolding sound_state_def
proof (intro conjI allI impI)
  show "distinct (map fst (award_years (st\<lparr>award_years := store_cell add k y x (touch k y (award_years st)),
                          award_info := AList.update k i (award_info st)\<rparr>)))"
    using s by (simp add: sound_state_def distinct_touch distinct_store_cell)
next
  fix k' ys
  assume m: "map_of (award_years (st\<lparr>award_years := store_cell add k y x (touch k y (award_years st)),
                          award_info := AList.update k i (award_info st)\<rparr>)) k' = Some ys"
    and nz: "\<exists>y x. (y, x) \<in> set ys \<and> x \<noteq> 0"
  from nz obtain y' x' where in_ys: "(y', x') \<in> set ys" and x': "x' \<noteq> 0" by blast
  have "map_of (AList.update k i (award_info st)) k' \<noteq> None"
  proof (cases "k' = k")
    case True
    then show ?thesis by (simp add: update_conv')
  next
    case False
    with m have "map_of (award_years st) k' = Some ys"
      by (simp add: map_of_store_cell map_of_touch)
    then have "map_of (award_info st) k' \<noteq> None" using s in_ys x' sound_stateD by blast
    with False show ?thesis by (simp add: update_conv')
  qed
  then show "map_of (award_info (st\<lparr>award_years := store_cell add k y x (touch k y (award_years st)),
                          award_info := AList.update k i (award_info st)\<rparr>)) k' \<noteq> None"
    by simp
qed

lemma sound_step: "sound_state st \<Longrightarrow> sound_state (step cv add st a)"
  by (simp add: step_cases sound_touch sound_store split: sum.splits)

lemma sound_foldl: "sound_state st \<Longrightarrow> sound_state (foldl (step cv add) st data)"
  by (induction data arbitrary: st) (simp_all add: sound_step)

lemma sound_empty: "sound_state empty_state"
  by (simp add: sound_state_def empty_state_def)

lemma sound_accumulate: "accumulate cv add data = Inr st \<Longrightarrow> sound_state st"
  by (auto simp: accumulate_foldl intro: sound_foldl sound_empty)

section \<open>The rows of the engine\<close>

lemma set_sort_desc [simp]: "set (sort_desc f xs) = set xs"
  by (simp add: sort_desc_def)


lemma set_last_3: "set (last_3 ys) \<subseteq> set ys"
proof -
  have "set (drop n (sort_key fst ys)) \<subseteq> set (sort_key fst ys)" for n
    by (rule set_drop_subset)
  then show ?thesis by (simp add: last_3_def Let_def)
qed

lemma hd_last_3_in: "last_3 ys \<noteq> [] \<Longrightarrow> hd (last_3 ys) \<in> set ys"
  using set_last_3[of ys] hd_in_set[of "last_3 ys"] by blast

lemma classify_cases:
  "classify cy infos (k, ys) =
     (if qualifies ys then
        (case map_of infos k of
           None \<Rightarrow> Inl KeyError
         | Some i \<Rightarrow> Inr (Some (trend_row cy k ys i (hd (last_3 ys)) (last (last_3 ys)) (window_change ys)
                       (sum_list (map (cell_value ys) (last_5_years cy))))))
      else Inr None)"
  unfolding classify_def qualifies_def window_change_def py_div_def Let_def
  by (auto split: option.splits)

lemma qualifies_nonzero: "qualifies ys \<Longrightarrow> \<exists>y x. (y, x) \<in> set ys \<and> x \<noteq> 0"
proof -
  assume q: "qualifies ys"
  obtain y x where e: "hd (last_3 ys) = (y, x)" by (cases "hd (last_3 ys)")
  from q have "last_3 ys \<noteq> []" by (auto simp: qualifies_def)
  then have "hd (last_3 ys) \<in> set ys" by (rule hd_last_3_in)
  with e have "(y, x) \<in> set ys" by simp
  moreover from q e have "x \<noteq> 0" by (simp add: qualifies_def)
  ultimately show ?thesis by blast
qed

lemma trend_rows_sound:
  assumes "\<forall>(k, ys) \<in> set items. qualifies ys \<longrightarrow> map_of infos k \<noteq> None"
  shows "\<exists>rows. trend_rows cy infos items = Inr rows \<and>
           (\<forall>r. r \<in> set rows \<longleftrightarrow> (\<exists>item \<in> set items. classify cy infos item = Inr (Some r)))"
  using assms
proof (induction items)
  case Nil
  then show ?case by simp
next
  case (Cons item items)
  obtain k ys where item: "item = (k, ys)" by (cases item)
  from Cons.prems have "\<forall>(k, ys) \<in> set items. qualifies ys \<longrightarrow> map_of infos k \<noteq> None"
    by simp
  from Cons.IH[OF this] obtain rows where rows: "trend_rows cy infos items = Inr rows"
    "\<forall>r. r \<in> set rows \<longleftrightarrow> (\<exists>item \<in> set items. classify cy infos item = Inr (Some r))" by blast
  from Cons.prems item have "qualifies ys \<longrightarrow> map_of infos k \<noteq> None" by simp
  then obtain c where c: "classify cy infos item = Inr c"
    by (cases "qualifies ys") (auto simp: item classify_cases)
  show ?case
  proof (cases c)
    case None
    with c rows show ?thesis by auto
  next
    case (Some r)
    with c rows show ?thesis by auto
  qed
qed

lemma engine_rows:
  assumes acc: "accumulate cv (+) data = Inr st"
  shows "\<exists>rows. filter_20_percent_change cv cy data = Inr (rows, last_5_years cy) \<and>
           (\<forall>r. r \<in> set rows \<longleftrightarrow>
              (\<exists>k ys. map_of (award_years st) k = Some ys \<and>
                       classify cy (award_info st) (k, ys) = Inr (Some r)))"
proof -
  from acc have s: "sound_state st" by (rule sound_accumulate)
  then have d: "distinct (map fst (award_years st))" by (simp add: sound_state_def)
  have "map_of (award_info st) k \<noteq> None" if "(k, ys) \<in> set (award_years st)" "qualifies ys" for k ys
  proof -
    from that d have "map_of (award_years st) k = Some ys" by simp
    moreover from that obtain y x where "(y, x) \<in> set ys" "x \<noteq> 0" using qualifies_nonzero by blast
    ultimately show ?thesis using s sound_stateD by blast
  qed
  then have "\<forall>(k, ys) \<in> set (award_years st). qualifies ys \<longrightarrow> map_of (award_info st) k \<noteq> None"
    by blast
  from trend_rows_sound[OF this, where cy = cy] obtain rows where
    rows: "trend_rows cy (award_info st) (award_years st) = Inr rows"
    "\<forall>r. r \<in> set rows \<longleftrightarrow> (\<exists>item \<in> set (award_years st). classify cy (award_info st) item = Inr (Some r))"
    by blast
  have "filter_20_percent_change cv cy data = Inr (sort_desc change_percent rows, last_5_years cy)"
    by (simp add: filter_20_percent_change_def acc rows)
  moreover have "r \<in> set (sort_desc change_percent rows) \<longleftrightarrow>
      (\<exists>k ys. map_of (award_years st) k = Some ys \<and> classify cy (award_info st) (k, ys) = Inr (Some r))" for r
    using rows(2) d by (auto simp: map_of_eq_Some_iff)
  ultimately show ?thesis by blast
qed

lemma classify_SomeD:
  assumes "classify cy infos (k, ys) = Inr (Some r)"
  shows "qualifies ys" and "award_id r = k"
    and "\<exists>i. map_of infos k = Some i \<and>
           r = trend_row cy k ys i (hd (last_3 ys)) (last (last_3 ys)) (window_change ys)
                 (sum_list (map (cell_value ys) (last_5_years cy)))"
  using assms
  by (auto simp: classify_cases trend_row_def split: if_splits option.splits)

lemma engine_total:
  "\<exists>st rows. accumulate cv (+) data = Inr st \<and>
     filter_20_percent_change cv cy data = Inr (rows, last_5_years cy)"
  using engine_rows[OF accumulate_foldl] accumulate_foldl by blast

lemma engine_award_ids:
  assumes acc: "accumulate cv (+) data = Inr st"
    and out: "filter_20_percent_change cv cy data = Inr (rows, l5)"
    and ys: "map_of (award_years st) k = Some ys"
  shows "k \<in> award_id ` set rows \<longleftrightarrow> qualifies ys"
proof -
  from engine_rows[OF acc, of cy] out
  have rows: "r \<in> set rows \<longleftrightarrow>
      (\<exists>k ys. map_of (award_years st) k = Some ys \<and> classify cy (award_info st) (k, ys) = Inr (Some r))" for r
    by auto
  show ?thesis
  proof
    assume "k \<in> award_id ` set rows"
    then obtain r where r: "r \<in> set rows" "award_id r = k" by auto
    then obtain k' ys' where c: "map_of (award_years st) k' = Some ys'"
      "classify cy (award_info st) (k', ys') = Inr (Some r)" using rows by blast
    from classify_SomeD(2)[OF c(2)] r have "k' = k" by simp
    with c ys have "ys' = ys" by simp
    with classify_SomeD(1)[OF c(2)] show "qualifies ys" by simp
  next
    assume q: "qualifies ys"
    from q obtain y x where "(y, x) \<in> set ys" "x \<noteq> 0" using qualifies_nonzero by blast
    with ys sound_accumulate[OF acc] have "map_of (award_info st) k \<noteq> None"
      using sound_stateD by blast
    then obtain i where "map_of (award_info st) k = Some i" by blast
    with q have "\<exists>r. classify cy (award_info st) (k, ys) = Inr (Some r) \<and> award_id r = k"
      by (simp add: classify_cases trend_row_def)
    with ys rows show "k \<in> award_id ` set rows" by force
  qed
qed

section \<open>Exclusions and the threshold\<close>

text \<open>The definitions unfolded to run the engine on a concrete input.\<close>

lemmas eval_defs = accumulate_def empty_state_def process_award_def try_body_def year_of_def
  award_key_def amount_of_def subscript_def slice4_def py_int_def py_float_def hash_key_def
  get_or_empty_def touch_def touch_year_def years_at_def store_cell_def cell_value_def caught_def
  plain_conv_def plain_int_def digit_value_def plain_award_def Let_def
  filter_20_percent_change_def classify_def last_3_def py_div_def trend_row_def last_5_years_def
  round2_def round_half_even_def sort_desc_def

text \<open>
  Claim C7. An award whose trailing-window first amount is exactly 0 never appears in the
  output, whatever its last amount; and the engine returns its rows, so the division
  that computes the change is never reached with a zero divisor (that would be the
  result \<open>Inl ZeroDivisionError\<close>).
\<close>

theorem zero_baseline_excluded:
  assumes "accumulate cv (+) data = Inr st"
    and "map_of (award_years st) k = Some ys"
    and "last_3 ys = (fy, 0) # rest"
  shows "\<exists>rows. filter_20_percent_change cv cy data = Inr (rows, last_5_years cy) \<and>
           k \<notin> award_id ` set rows"
proof -
  from engine_rows[OF assms(1), of cy] obtain rows where
    out: "filter_20_percent_change cv cy data = Inr (rows, last_5_years cy)" by blast
  from assms(3) have "\<not> qualifies ys" by (simp add: qualifies_def)
  with engine_award_ids[OF assms(1) out assms(2)] out show ?thesis by blast
qed

text \<open>
  An award with 0 in 2021 and 500 in 2022 is left out.
\<close>

theorem zero_baseline_excluded_witness:
  "accumulate plain_conv (+)
     [plain_award ''Z'' ''2021-01-15'' (JInt 0), plain_award ''Z'' ''2022-01-15'' (JInt 500)]
   = Inr \<lparr>award_years = [(KStr ''Z'', [(2021, 0), (2022, 500)])],
          award_info = [(KStr ''Z'', \<lparr>info_recipient_name = JStr [],
                          info_awarding_agency_code = JStr [], info_trend = JStr []\<rparr>)]\<rparr>
   \<and> last_3 [(2021, 0), (2022, 500)] = (2021, 0) # [(2022, 500)]
   \<and> (\<exists>rows. filter_20_percent_change plain_conv 2023
         [plain_award ''Z'' ''2021-01-15'' (JInt 0), plain_award ''Z'' ''2022-01-15'' (JInt 500)]
           = Inr (rows, last_5_years 2023) \<and> KStr ''Z'' \<notin> award_id ` set rows)"
proof -
  have a: "accumulate plain_conv (+)
     [plain_award ''Z'' ''2021-01-15'' (JInt 0), plain_award ''Z'' ''2022-01-15'' (JInt 500)]
   = Inr \<lparr>award_years = [(KStr ''Z'', [(2021, 0), (2022, 500)])],
          award_info = [(KStr ''Z'', \<lparr>info_recipient_name = JStr [],
                          info_awarding_agency_code = JStr [], info_trend = JStr []\<rparr>)]\<rparr>"
    by (simp add: eval_defs)
  have b: "map_of (award_years \<lparr>award_years = [(KStr ''Z'', [(2021, 0), (2022, 500)])],
          award_info = [(KStr ''Z'', \<lparr>info_recipient_name = JStr [],
                          info_awarding_agency_code = JStr [], info_trend = JStr []\<rparr>)]\<rparr>) (KStr ''Z'')
      = Some [(2021, 0), (2022, 500)]"
    by simp
  have c: "last_3 [(2021, 0), (2022, 500)] = (2021, 0) # [(2022, 500)]"
    by (simp add: last_3_def)
  from zero_baseline_excluded[OF a b c, of 2023] a c show ?thesis by blast
qed

lemma engine_row_of:
  assumes acc: "accumulate cv (+) data = Inr st"
    and out: "filter_20_percent_change cv cy data = Inr (rows, l5)"
    and r: "r \<in> set rows"
  shows "\<exists>ys i. map_of (award_years st) (award_id r) = Some ys \<and> qualifies ys \<and>
           map_of (award_info st) (award_id r) = Some i \<and>
           r = trend_row cy (award_id r) ys i (hd (last_3 ys)) (last (last_3 ys)) (window_change ys)
                 (sum_list (map (cell_value ys) (last_5_years cy)))"
proof -
  from engine_rows[OF acc, of cy] out r
  obtain k ys where c: "map_of (award_years st) k = Some ys"
    "classify cy (award_info st) (k, ys) = Inr (Some r)" by auto
  from classify_SomeD[OF c(2)] c(1) show ?thesis by auto
qed

lemma engine_last_5:
  "filter_20_percent_change cv cy data = Inr (rows, l5) \<Longrightarrow> l5 = last_5_years cy"
  using engine_total[of cv data cy] by auto



text \<open>
  Claim C3. An award with at least 2 entries in its window and a non-zero first amount
  qualifies exactly when \<open>abs(change) >= 0.20\<close> for
  \<open>change = (last.amount - first.amount) / first.amount\<close>. The boundary is inclusive:
  from 100 to 120 the award qualifies, from 100 to 119 it does not.
\<close>

theorem threshold_qualification:
  assumes "accumulate cv (+) data = Inr st"
    and "filter_20_percent_change cv cy data = Inr (rows, l5)"
    and "map_of (award_years st) k = Some ys"
    and "2 \<le> length (last_3 ys)"
    and "hd (last_3 ys) = (fy, fa)"
    and "last (last_3 ys) = (ly, la)"
    and "fa \<noteq> 0"
  shows "(k \<in> award_id ` set rows \<longleftrightarrow> 0.2 \<le> \<bar>(la - fa) / fa\<bar>)
       \<and> (fa = 100 \<and> la = 120 \<longrightarrow> k \<in> award_id ` set rows)
       \<and> (fa = 100 \<and> la = 119 \<longrightarrow> k \<notin> award_id ` set rows)"
proof -
  from assms(4-7) have q: "qualifies ys \<longleftrightarrow> 0.2 \<le> \<bar>(la - fa) / fa\<bar>"
    by (simp add: qualifies_def window_change_def)
  have "k \<in> award_id ` set rows \<longleftrightarrow> qualifies ys"
    by (rule engine_award_ids[OF assms(1-3)])
  with q have main: "k \<in> award_id ` set rows \<longleftrightarrow> 0.2 \<le> \<bar>(la - fa) / fa\<bar>" by simp
  show ?thesis
  proof (intro conjI impI)
    show "k \<in> award_id ` set rows \<longleftrightarrow> 0.2 \<le> \<bar>(la - fa) / fa\<bar>" by (rule main)
  next
    assume "fa = 100 \<and> la = 120"
    with main show "k \<in> award_id ` set rows" by simp
  next
    assume "fa = 100 \<and> la = 119"
    with main show "k \<notin> award_id ` set rows" by simp
  qed
qed

text \<open>
  Award A goes from 100 to 120 and is reported with a change of 20 percent; award B goes
  from 100 to 119 and is not reported.
\<close>

theorem threshold_qualification_witness:
  "accumulate plain_conv (+)
     [plain_award ''A'' ''2021-02-01'' (JInt 100), plain_award ''A'' ''2022-02-01'' (JInt 120),
      plain_award ''B'' ''2021-02-01'' (JInt 100), plain_award ''B'' ''2022-02-01'' (JInt 119)]
   = Inr \<lparr>award_years = [(KStr ''A'', [(2021, 100), (2022, 120)]),
                           (KStr ''B'', [(2021, 100), (2022, 119)])],
          award_info =
            [(KStr ''A'', \<lparr>info_recipient_name = JStr [], info_awarding_agency_code = JStr [],
                            info_trend = JStr []\<rparr>),
             (KStr ''B'', \<lparr>info_recipient_name = JStr [], info_awarding_agency_code = JStr [],
                            info_trend = JStr []\<rparr>)]\<rparr>
   \<and> filter_20_percent_change plain_conv 2023
     [plain_award ''A'' ''2021-02-01'' (JInt 100), plain_award ''A'' ''2022-02-01'' (JInt 120),
      plain_award ''B'' ''2021-02-01'' (JInt 100), plain_award ''B'' ''2022-02-01'' (JInt 119)]
   = Inr ([\<lparr>award_id = KStr ''A'', recipient_name = JStr [], awarding_agency_code = JStr [],
             first_year = 2021, first_amount = 100, last_year = 2022, last_amount = 120,
             change_percent = 20, trend = ''Increase'', total_5yr_funding = 220,
             funding = [(2018, 0), (2019, 0), (2020, 0), (2021, 100), (2022, 120)],
             abs_change = 20\<rparr>],
          [2018, 2019, 2020, 2021, 2022])
   \<and> (100 :: real) \<noteq> 0
   \<and> KStr ''A'' \<in> award_id ` set
        [\<lparr>award_id = KStr ''A'', recipient_name = JStr [], awarding_agency_code = JStr [],
             first_year = 2021, first_amount = 100, last_year = 2022, last_amount = 120,
             change_percent = 20, trend = ''Increase'', total_5yr_funding = 220,
             funding = [(2018, 0), (2019, 0), (2020, 0), (2021, 100), (2022, 120)],
             abs_change = 20\<rparr>]
   \<and> KStr ''B'' \<notin> award_id ` set
        [\<lparr>award_id = KStr ''A'', recipient_name = JStr [], awarding_agency_code = JStr [],
             first_year = 2021, first_amount = 100, last_year = 2022, last_amount = 120,
             change_percent = 20, trend = ''Increase'', total_5yr_funding = 220,
             funding = [(2018, 0), (2019, 0), (2020, 0), (2021, 100), (2022, 120)],
             abs_change = 20\<rparr>]"
proof -
  have a: "accumulate plain_conv (+)
     [plain_award ''A'' ''2021-02-01'' (JInt 100), plain_award ''A'' ''2022-02-01'' (JInt 120),
      plain_award ''B'' ''2021-02-01'' (JInt 100), plain_award ''B'' ''2022-02-01'' (JInt 119)]
   = Inr \<lparr>award_years = [(KStr ''A'', [(2021, 100), (2022, 120)]),
                           (KStr ''B'', [(2021, 100), (2022, 119)])],
          award_info =
            [(KStr ''A'', \<lparr>info_recipient_name = JStr [], info_awarding_agency_code = JStr [],
                            info_trend = JStr []\<rparr>),
             (KStr ''B'', \<lparr>info_recipient_name = JStr [], info_awarding_agency_code = JStr [],
                            info_trend = JStr []\<rparr>)]\<rparr>"
    by (simp add: eval_defs)
  have f: "filter_20_percent_change plain_conv 2023
     [plain_award ''A'' ''2021-02-01'' (JInt 100), plain_award ''A'' ''2022-02-01'' (JInt 120),
      plain_award ''B'' ''2021-02-01'' (JInt 100), plain_award ''B'' ''2022-02-01'' (JInt 119)]
   = Inr ([\<lparr>award_id = KStr ''A'', recipient_name = JStr [], awarding_agency_code = JStr [],
             first_year = 2021, first_amount = 100, last_year = 2022, last_amount = 120,
             change_percent = 20, trend = ''Increase'', total_5yr_funding = 220,
             funding = [(2018, 0), (2019, 0), (2020, 0), (2021, 100), (2022, 120)],
             abs_change = 20\<rparr>],
          [2018, 2019, 2020, 2021, 2022])"
    unfolding filter_20_percent_change_def a by (simp add: eval_defs)
  have mA: "map_of (award_years \<lparr>award_years = [(KStr ''A'', [(2021, 100), (2022, 120)]),
                           (KStr ''B'', [(2021, 100), (2022, 119)])],
          award_info =
            [(KStr ''A'', \<lparr>info_recipient_name = JStr [], info_awarding_agency_code = JStr [],
                            info_trend = JStr []\<rparr>),
             (KStr ''B'', \<lparr>info_recipient_name = JStr [], info_awarding_agency_code = JStr [],
                            info_trend = JStr []\<rparr>)]\<rparr>) (KStr ''A'') = Some [(2021, 100), (2022, 120)]"
    by simp
  have mB: "map_of (award_years \<lparr>award_years = [(KStr ''A'', [(2021, 100), (2022, 120)]),
                           (KStr ''B'', [(2021, 100), (2022, 119)])],
          award_info =
            [(KStr ''A'', \<lparr>info_recipient_name = JStr [], info_awarding_agency_code = JStr [],
                            info_trend = JStr []\<rparr>),
             (KStr ''B'', \<lparr>info_recipient_name = JStr [], info_awarding_agency_code = JStr [],
                            info_trend = JStr []\<rparr>)]\<rparr>) (KStr ''B'') = Some [(2021, 100), (2022, 119)]"
    by simp
  have lA: "2 \<le> length (last_3 [(2021, 100), (2022, 120)])"
    and hA: "hd (last_3 [(2021, 100), (2022, 120)]) = (2021, 100)"
    and tA: "last (last_3 [(2021, 100), (2022, 120)]) = (2022, 120)"
    and lB: "2 \<le> length (last_3 [(2021, 100), (2022, 119)])"
    and hB: "hd (last_3 [(2021, 100), (2022, 119)]) = (2021, 100)"
    and tB: "last (last_3 [(2021, 100), (2022, 119)]) = (2022, 119)"
    by (simp_all add: last_3_def)
  have nz: "(100 :: real) \<noteq> 0" by simp
  from threshold_qualification[OF a f mA lA hA tA nz] threshold_qualification[OF a f mB lB hB tB nz]
  show ?thesis using a f by simp
qed

text \<open>
  Claim C10. With at least 2 entries in the window and a strictly negative first amount
  the award is not stopped by the zero-baseline guard: it is reported exactly when
  \<open>abs(change) >= 0.20\<close>; the change has the opposite sign of
  \<open>last.amount - first.amount\<close>; and the label follows the sign of the change, so an
  award whose last amount exceeds its first amount is labelled Decrease.
\<close>

theorem negative_baseline_classification:
  assumes "accumulate cv (+) data = Inr st"
    and "filter_20_percent_change cv cy data = Inr (rows, l5)"
    and "map_of (award_years st) k = Some ys"
    and "2 \<le> length (last_3 ys)"
    and "hd (last_3 ys) = (fy, fa)"
    and "last (last_3 ys) = (ly, la)"
    and "fa < 0"
  shows "(k \<in> award_id ` set rows \<longleftrightarrow> 0.2 \<le> \<bar>(la - fa) / fa\<bar>)
       \<and> (0 < (la - fa) / fa \<longleftrightarrow> la - fa < 0)
       \<and> ((la - fa) / fa < 0 \<longleftrightarrow> 0 < la - fa)
       \<and> (\<forall>r \<in> set rows. award_id r = k \<longrightarrow>
             trend r = (if 0 < (la - fa) / fa then ''Increase'' else ''Decrease'')
           \<and> (fa < la \<longrightarrow> trend r = ''Decrease''))"
proof -
  from assms(4-7) have q: "qualifies ys \<longleftrightarrow> 0.2 \<le> \<bar>(la - fa) / fa\<bar>"
    by (simp add: qualifies_def window_change_def)
  have "k \<in> award_id ` set rows \<longleftrightarrow> qualifies ys"
    by (rule engine_award_ids[OF assms(1-3)])
  with q have main: "k \<in> award_id ` set rows \<longleftrightarrow> 0.2 \<le> \<bar>(la - fa) / fa\<bar>" by simp
  from assms(7) have s1: "0 < (la - fa) / fa \<longleftrightarrow> la - fa < 0"
    by (simp add: zero_less_divide_iff)
  from assms(7) have s2: "(la - fa) / fa < 0 \<longleftrightarrow> 0 < la - fa"
    by (simp add: divide_less_0_iff)
  have lab: "trend r = (if 0 < (la - fa) / fa then ''Increase'' else ''Decrease'')"
    if "r \<in> set rows" "award_id r = k" for r
  proof -
    from engine_row_of[OF assms(1,2) that(1)] that(2) assms(3)
    obtain i where "r = trend_row cy k ys i (hd (last_3 ys)) (last (last_3 ys)) (window_change ys)
                 (sum_list (map (cell_value ys) (last_5_years cy)))" by auto
    then have "trend r = (if 0 < window_change ys then ''Increase'' else ''Decrease'')"
      by (simp add: trend_row_def)
    with assms(5,6) show ?thesis by (simp add: window_change_def)
  qed
  have dec: "trend r = ''Decrease''" if "r \<in> set rows" "award_id r = k" "fa < la" for r
  proof -
    from that(3) s1 have "\<not> 0 < (la - fa) / fa" by simp
    with lab[OF that(1,2)] show ?thesis by simp
  qed
  from main s1 s2 lab dec show ?thesis by blast
qed

text \<open>
  An award that goes from -100 to -50: the change is -0.5, it is reported and labelled
  Decrease.
\<close>

theorem negative_baseline_classification_witness:
  "accumulate plain_conv (+)
     [plain_award ''N'' ''2021-02-01'' (JInt (- 100)), plain_award ''N'' ''2022-02-01'' (JInt (- 50))]
   = Inr \<lparr>award_years = [(KStr ''N'', [(2021, - 100), (2022, - 50)])],
          award_info =
            [(KStr ''N'', \<lparr>info_recipient_name = JStr [], info_awarding_agency_code = JStr [],
                            info_trend = JStr []\<rparr>)]\<rparr>
   \<and> filter_20_percent_change plain_conv 2023
     [plain_award ''N'' ''2021-02-01'' (JInt (- 100)), plain_award ''N'' ''2022-02-01'' (JInt (- 50))]
   = Inr ([\<lparr>award_id = KStr ''N'', recipient_name = JStr [], awarding_agency_code = JStr [],
             first_year = 2021, first_amount = - 100, last_year = 2022, last_amount = - 50,
             change_percent = - 50, trend = ''Decrease'', total_5yr_funding = - 150,
             funding = [(2018, 0), (2019, 0), (2020, 0), (2021, - 100), (2022, - 50)],
             abs_change = 50\<rparr>],
          [2018, 2019, 2020, 2021, 2022])
   \<and> (- 100 :: real) < 0 \<and> (- 100 :: real) < - 50
   \<and> ((- 50 - - 100) / - 100 :: real) = - 1 / 2
   \<and> (0.2 :: real) \<le> \<bar>(- 50 - - 100) / - 100\<bar>"
proof -
  have a: "accumulate plain_conv (+)
     [plain_award ''N'' ''2021-02-01'' (JInt (- 100)), plain_award ''N'' ''2022-02-01'' (JInt (- 50))]
   = Inr \<lparr>award_years = [(KStr ''N'', [(2021, - 100), (2022, - 50)])],
          award_info =
            [(KStr ''N'', \<lparr>info_recipient_name = JStr [], info_awarding_agency_code = JStr [],
                            info_trend = JStr []\<rparr>)]\<rparr>"
    by (simp add: eval_defs)
  have f: "filter_20_percent_change plain_conv 2023
     [plain_award ''N'' ''2021-02-01'' (JInt (- 100)), plain_award ''N'' ''2022-02-01'' (JInt (- 50))]
   = Inr ([\<lparr>award_id = KStr ''N'', recipient_name = JStr [], awarding_agency_code = JStr [],
             first_year = 2021, first_amount = - 100, last_year = 2022, last_amount = - 50,
             change_percent = - 50, trend = ''Decrease'', total_5yr_funding = - 150,
             funding = [(2018, 0), (2019, 0), (2020, 0), (2021, - 100), (2022, - 50)],
             abs_change = 50\<rparr>],
          [2018, 2019, 2020, 2021, 2022])"
    unfolding filter_20_percent_change_def a by (simp add: eval_defs)
  have m: "map_of (award_years \<lparr>award_years = [(KStr ''N'', [(2021, - 100), (2022, - 50)])],
          award_info =
            [(KStr ''N'', \<lparr>info_recipient_name = JStr [], info_awarding_agency_code = JStr [],
                            info_trend = JStr []\<rparr>)]\<rparr>) (KStr ''N'') = Some [(2021, - 100), (2022, - 50)]"
    by simp
  have l: "2 \<le> length (last_3 [(2021, - 100), (2022, - 50)])"
    and h: "hd (last_3 [(2021, - 100), (2022, - 50)]) = (2021, - 100)"
    and t: "last (last_3 [(2021, - 100), (2022, - 50)]) = (2022, - 50)"
    by (simp_all add: last_3_def)
  have neg: "(- 100 :: real) < 0" by simp
  from negative_baseline_classification[OF a f m l h t neg]
  show ?thesis using a f by simp
qed

section \<open>The five-year window\<close>

text \<open>
  Claim C2, as stated, fails. Run in 2024 on an award with 100 in 2023 and 130 in 2024:
  the five calendar years up to and including 2024 hold 230, while the row reports a
  total of 100 and the columns of 2019 to 2023. The window is built from
  \<^verbatim>\<open>range(5, 0, -1)\<close> and stops at the year before the current one.
\<close>

theorem total_5yr_window_counterexample:
  "filter_20_percent_change plain_conv 2024
     [plain_award ''A'' ''2023-05-01'' (JInt 100), plain_award ''A'' ''2024-05-01'' (JInt 130)]
   = Inr ([\<lparr>award_id = KStr ''A'', recipient_name = JStr [], awarding_agency_code = JStr [],
             first_year = 2023, first_amount = 100, last_year = 2024, last_amount = 130,
             change_percent = 30, trend = ''Increase'', total_5yr_funding = 100,
             funding = [(2019, 0), (2020, 0), (2021, 0), (2022, 0), (2023, 100)],
             abs_change = 30\<rparr>],
          [2019, 2020, 2021, 2022, 2023])"
  by (simp add: eval_defs)

text \<open>
  Claim C2, amended. For every row of the output, \<open>total_5yr_funding\<close> and the five
  \<open>funding_<year>\<close> columns cover the fixed window of the 5 calendar years before the
  current year, the current year excluded; a year absent from the accumulator counts as
  zero; each value is rounded to 2 decimals; and the years of the 3-year trend window
  play no part.
\<close>

theorem total_5yr_window:
  assumes "accumulate cv (+) data = Inr st"
    and "filter_20_percent_change cv cy data = Inr (rows, l5)"
    and "r \<in> set rows"
  shows "l5 = [cy - 5, cy - 4, cy - 3, cy - 2, cy - 1]
       \<and> (\<exists>ys. map_of (award_years st) (award_id r) = Some ys
            \<and> total_5yr_funding r =
                round2 (\<Sum>y\<leftarrow>l5. case map_of ys y of None \<Rightarrow> 0 | Some x \<Rightarrow> x)
            \<and> funding r =
                map (\<lambda>y. (y, round2 (case map_of ys y of None \<Rightarrow> 0 | Some x \<Rightarrow> x))) l5)"
proof -
  have l5: "l5 = [cy - 5, cy - 4, cy - 3, cy - 2, cy - 1]"
    using engine_last_5[OF assms(2)] by (simp add: last_5_years_def)
  from engine_row_of[OF assms] obtain ys i where
    ys: "map_of (award_years st) (award_id r) = Some ys"
    and r: "r = trend_row cy (award_id r) ys i (hd (last_3 ys)) (last (last_3 ys)) (window_change ys)
                 (sum_list (map (cell_value ys) (last_5_years cy)))" by blast
  have c: "cell_value ys = (\<lambda>y. case map_of ys y of None \<Rightarrow> 0 | Some x \<Rightarrow> x)"
    by (rule ext) (simp add: cell_value_def)
  have "total_5yr_funding r = round2 (sum_list (map (cell_value ys) (last_5_years cy)))"
    by (subst r) (simp add: trend_row_def)
  moreover have "funding r = map (\<lambda>y. (y, round2 (cell_value ys y))) (last_5_years cy)"
    by (subst r) (simp add: trend_row_def)
  ultimately show ?thesis using ys l5 engine_last_5[OF assms(2)] unfolding c by auto
qed

text \<open>
  Run in 2024 on an award with 40 in 2019, 100 in 2022 and 130 in 2024: the total is
  140 and the columns are those of 2019 to 2023.
\<close>

theorem total_5yr_window_witness:
  "accumulate plain_conv (+)
     [plain_award ''A'' ''2019-05-01'' (JInt 40), plain_award ''A'' ''2022-05-01'' (JInt 100),
      plain_award ''A'' ''2024-05-01'' (JInt 130)]
   = Inr \<lparr>award_years = [(KStr ''A'', [(2019, 40), (2022, 100), (2024, 130)])],
          award_info =
            [(KStr ''A'', \<lparr>info_recipient_name = JStr [], info_awarding_agency_code = JStr [],
                            info_trend = JStr []\<rparr>)]\<rparr>
   \<and> filter_20_percent_change plain_conv 2024
     [plain_award ''A'' ''2019-05-01'' (JInt 40), plain_award ''A'' ''2022-05-01'' (JInt 100),
      plain_award ''A'' ''2024-05-01'' (JInt 130)]
   = Inr ([\<lparr>award_id = KStr ''A'', recipient_name = JStr [], awarding_agency_code = JStr [],
             first_year = 2019, first_amount = 40, last_year = 2024, last_amount = 130,
             change_percent = 225, trend = ''Increase'', total_5yr_funding = 140,
             funding = [(2019, 40), (2020, 0), (2021, 0), (2022, 100), (2023, 0)],
             abs_change = 90\<rparr>],
          [2019, 2020, 2021, 2022, 2023])
   \<and> [2019, 2020, 2021, 2022, 2023] = [2024 - 5, 2024 - 4, 2024 - 3, 2024 - 2, 2024 - (1 :: int)]
   \<and> (140 :: real) = round2 (\<Sum>y\<leftarrow>[2019, 2020, 2021, 2022, 2023 :: int].
         case map_of [(2019, 40), (2022, 100), (2024, 130)] y of None \<Rightarrow> 0 | Some x \<Rightarrow> x)"
proof -
  have a: "accumulate plain_conv (+)
     [plain_award ''A'' ''2019-05-01'' (JInt 40), plain_award ''A'' ''2022-05-01'' (JInt 100),
      plain_award ''A'' ''2024-05-01'' (JInt 130)]
   = Inr \<lparr>award_years = [(KStr ''A'', [(2019, 40), (2022, 100), (2024, 130)])],
          award_info =
            [(KStr ''A'', \<lparr>info_recipient_name = JStr [], info_awarding_agency_code = JStr [],
                            info_trend = JStr []\<rparr>)]\<rparr>"
    by (simp add: eval_defs)
  have f: "filter_20_percent_change plain_conv 2024
     [plain_award ''A'' ''2019-05-01'' (JInt 40), plain_award ''A'' ''2022-05-01'' (JInt 100),
      plain_award ''A'' ''2024-05-01'' (JInt 130)]
   = Inr ([\<lparr>award_id = KStr ''A'', recipient_name = JStr [], awarding_agency_code = JStr [],
             first_year = 2019, first_amount = 40, last_year = 2024, last_amount = 130,
             change_percent = 225, trend = ''Increase'', total_5yr_funding = 140,
             funding = [(2019, 40), (2020, 0), (2021, 0), (2022, 100), (2023, 0)],
             abs_change = 90\<rparr>],
          [2019, 2020, 2021, 2022, 2023])"
    unfolding filter_20_percent_change_def a by (simp add: eval_defs)
  have m: "\<lparr>award_id = KStr ''A'', recipient_name = JStr [], awarding_agency_code = JStr [],
             first_year = 2019, first_amount = 40, last_year = 2024, last_amount = 130,
             change_percent = 225, trend = ''Increase'', total_5yr_funding = 140,
             funding = [(2019, 40), (2020, 0), (2021, 0), (2022, 100), (2023, 0)],
             abs_change = 90\<rparr>
      \<in> set [\<lparr>award_id = KStr ''A'', recipient_name = JStr [], awarding_agency_code = JStr [],
             first_year = 2019, first_amount = 40, last_year = 2024, last_amount = 130,
             change_percent = 225, trend = ''Increase'', total_5yr_funding = 140,
             funding = [(2019, 40), (2020, 0), (2021, 0), (2022, 100), (2023, 0)],
             abs_change = 90\<rparr>]"
    by simp
  from total_5yr_window[OF a f m] show ?thesis using a f by simp
qed

section \<open>Malformed records\<close>

text \<open>
  Claim C1 fails on the code for a record whose year and identifier are read but whose
  amount is not: the augmented assignment has created the cell of that year, with the
  value 0.0, before \<^verbatim>\<open>float\<close> raises. Here the third record has a null amount; with
  it the award is reported as a decrease of 100 percent ending in 2023, without it as an
  increase of 30 percent ending in 2022.
\<close>

theorem malformed_amount_changes_output:
  "filter_20_percent_change plain_conv 2024
     [plain_award ''A'' ''2021-03-01'' (JInt 100), plain_award ''A'' ''2022-03-01'' (JInt 130),
      plain_award ''A'' ''2023-03-01'' JNull]
   = Inr ([\<lparr>award_id = KStr ''A'', recipient_name = JStr [], awarding_agency_code = JStr [],
             first_year = 2021, first_amount = 100, last_year = 2023, last_amount = 0,
             change_percent = - 100, trend = ''Decrease'', total_5yr_funding = 230,
             funding = [(2019, 0), (2020, 0), (2021, 100), (2022, 130), (2023, 0)],
             abs_change = 100\<rparr>],
          [2019, 2020, 2021, 2022, 2023])
   \<and> filter_20_percent_change plain_conv 2024
     [plain_award ''A'' ''2021-03-01'' (JInt 100), plain_award ''A'' ''2022-03-01'' (JInt 130)]
   = Inr ([\<lparr>award_id = KStr ''A'', recipient_name = JStr [], awarding_agency_code = JStr [],
             first_year = 2021, first_amount = 100, last_year = 2022, last_amount = 130,
             change_percent = 30, trend = ''Increase'', total_5yr_funding = 230,
             funding = [(2019, 0), (2020, 0), (2021, 100), (2022, 130), (2023, 0)],
             abs_change = 30\<rparr>],
          [2019, 2020, 2021, 2022, 2023])
   \<and> amount_of plain_conv (plain_award ''A'' ''2023-03-01'' JNull) = Inl TypeError
   \<and> accumulate plain_conv (+)
     [plain_award ''A'' ''2021-03-01'' (JInt 100), plain_award ''A'' ''2022-03-01'' (JInt 130),
      plain_award ''A'' ''2023-03-01'' JNull]
   = Inr \<lparr>award_years = [(KStr ''A'', [(2021, 100), (2022, 130), (2023, 0)])],
          award_info =
            [(KStr ''A'', \<lparr>info_recipient_name = JStr [], info_awarding_agency_code = JStr [],
                            info_trend = JStr []\<rparr>)]\<rparr>"
  by (simp add: eval_defs)

lemma step_year_error: "year_of cv a = Inl e \<Longrightarrow> step cv add st a = st"
  by (simp add: step_cases)

lemma step_key_error: "award_key a = Inl e \<Longrightarrow> step cv add st a = st"
  by (simp add: step_cases split: sum.splits)

text \<open>
  A record whose year or whose identifier cannot be read is dropped without a trace.
\<close>

lemma unreadable_record_dropped:
  assumes "year_of cv a = Inl e \<or> award_key a = Inl e"
  shows "filter_20_percent_change cv cy (xs @ a # ys) = filter_20_percent_change cv cy (xs @ ys)"
proof -
  from assms have "step cv (+) st a = st" for st
    by (auto simp: step_year_error step_key_error)
  then show ?thesis
    by (simp add: filter_20_percent_change_def accumulate_foldl)
qed

section \<open>The trend hint\<close>

lemma map_of_filter_other:
  "n \<noteq> t \<Longrightarrow> map_of (filter (\<lambda>item. fst item \<noteq> t) items) n = map_of items n"
  by (induction items) auto

lemma subscript_without_trend:
  "n \<noteq> ''trend'' \<Longrightarrow> subscript (without_trend a) n = subscript a n"
  by (cases a) (simp_all add: subscript_def without_trend_def map_of_filter_other)

lemma get_or_empty_without_trend:
  "n \<noteq> ''trend'' \<Longrightarrow> get_or_empty (without_trend a) n = get_or_empty a n"
  by (cases a) (simp_all add: get_or_empty_def without_trend_def map_of_filter_other)

lemma year_of_without_trend: "year_of cv (without_trend a) = year_of cv a"
  by (simp add: year_of_def subscript_without_trend)

lemma award_key_without_trend: "award_key (without_trend a) = award_key a"
  by (simp add: award_key_def subscript_without_trend)

lemma amount_of_without_trend: "amount_of cv (without_trend a) = amount_of cv a"
  by (simp add: amount_of_def subscript_without_trend)

lemma map_blank_update:
  "map blank_trend (AList.update k i al) = AList.update k (i\<lparr>info_trend := JNull\<rparr>) (map blank_trend al)"
  by (induction al) (auto simp: blank_trend_def)

lemma blank_trends_step:
  assumes ab: "without_trend a = without_trend b"
    and st: "blank_trends st = blank_trends st'"
  shows "blank_trends (step cv add st a) = blank_trends (step cv add st' b)"
proof -
  have y: "year_of cv a = year_of cv b"
    using year_of_without_trend[of cv a] year_of_without_trend[of cv b] ab by simp
  have k: "award_key a = award_key b"
    using award_key_without_trend[of a] award_key_without_trend[of b] ab by simp
  have x: "amount_of cv a = amount_of cv b"
    using amount_of_without_trend[of cv a] amount_of_without_trend[of cv b] ab by simp
  have g: "get_or_empty a n = get_or_empty b n" if "n \<noteq> ''trend''" for n
    using get_or_empty_without_trend[OF that, of a] get_or_empty_without_trend[OF that, of b] ab
    by simp
  from st have "award_years (blank_trends st) = award_years (blank_trends st')"
    and "award_info (blank_trends st) = award_info (blank_trends st')" by simp_all
  then have ay: "award_years st = award_years st'"
    and ai: "map blank_trend (award_info st) = map blank_trend (award_info st')"
    by (simp_all add: blank_trends_def)
  show ?thesis
    by (simp add: step_cases y[symmetric] k[symmetric] x[symmetric] blank_trends_def ay ai
        map_blank_update g split: sum.splits)
qed

lemma blank_trends_foldl:
  assumes "list_all2 (\<lambda>a b. without_trend a = without_trend b) xs ys"
    and "blank_trends st = blank_trends st'"
  shows "blank_trends (foldl (step cv add) st xs) = blank_trends (foldl (step cv add) st' ys)"
  using assms
proof (induction xs ys arbitrary: st st' rule: list_all2_induct)
  case Nil
  then show ?case by simp
next
  case (Cons a xs b ys)
  from blank_trends_step[OF Cons.hyps(1) Cons.prems, of cv add]
  show ?case using Cons.IH by simp
qed

lemma map_of_blank:
  "map_of (map blank_trend infos) k = map_option (\<lambda>i. i\<lparr>info_trend := JNull\<rparr>) (map_of infos k)"
  by (induction infos) (auto simp: blank_trend_def)

lemma classify_blank: "classify cy (map blank_trend infos) item = classify cy infos item"
proof (cases item)
  case (Pair k ys)
  show ?thesis
    by (cases "map_of infos k") (simp_all add: Pair classify_cases map_of_blank trend_row_def)
qed

lemma trend_rows_blank: "trend_rows cy (map blank_trend infos) items = trend_rows cy infos items"
  by (induction items) (simp_all add: classify_blank split: sum.splits)

text \<open>The rows are a function of the state with the hints blanked.\<close>

lemma engine_blank:
  "filter_20_percent_change cv cy data =
     (case trend_rows cy (award_info (blank_trends (foldl (step cv (+)) empty_state data)))
             (award_years (blank_trends (foldl (step cv (+)) empty_state data))) of
        Inl e \<Rightarrow> Inl e
      | Inr filtered \<Rightarrow> Inr (sort_desc change_percent filtered, last_5_years cy))"
  by (simp add: filter_20_percent_change_def accumulate_foldl blank_trends_def trend_rows_blank)

lemma engine_row_fields:
  assumes acc: "accumulate cv (+) data = Inr st"
    and out: "filter_20_percent_change cv cy data = Inr (rows, l5)"
    and r: "r \<in> set rows"
  shows "\<exists>ys. map_of (award_years st) (award_id r) = Some ys \<and> qualifies ys \<and>
           first_amount r = snd (hd (last_3 ys)) \<and>
           last_amount r = snd (last (last_3 ys)) \<and>
           change_percent r = round2 (window_change ys * 100) \<and>
           trend r = (if 0 < window_change ys then ''Increase'' else ''Decrease'') \<and>
           total_5yr_funding r = round2 (sum_list (map (cell_value ys) (last_5_years cy))) \<and>
           funding r = map (\<lambda>y. (y, round2 (cell_value ys y))) (last_5_years cy)"
proof -
  from engine_row_of[OF assms] obtain ys i where
    ys: "map_of (award_years st) (award_id r) = Some ys" "qualifies ys"
    and r: "r = trend_row cy (award_id r) ys i (hd (last_3 ys)) (last (last_3 ys)) (window_change ys)
           (sum_list (map (cell_value ys) (last_5_years cy)))" by blast
  define t where "t = trend_row cy (award_id r) ys i (hd (last_3 ys)) (last (last_3 ys))
           (window_change ys) (sum_list (map (cell_value ys) (last_5_years cy)))"
  have "first_amount t = snd (hd (last_3 ys))" "last_amount t = snd (last (last_3 ys))"
    "change_percent t = round2 (window_change ys * 100)"
    "trend t = (if 0 < window_change ys then ''Increase'' else ''Decrease'')"
    "total_5yr_funding t = round2 (sum_list (map (cell_value ys) (last_5_years cy)))"
    "funding t = map (\<lambda>y. (y, round2 (cell_value ys y))) (last_5_years cy)"
    by (simp_all add: t_def trend_row_def)
  moreover from r have "r = t" by (simp add: t_def)
  ultimately show ?thesis using ys by blast
qed

lemma engine_trend_label:
  assumes out: "filter_20_percent_change cv cy data = Inr (rows, l5)" and r: "r \<in> set rows"
  shows "trend r = (if 0 < (last_amount r - first_amount r) / first_amount r
                    then ''Increase'' else ''Decrease'')"
proof -
  from engine_row_fields[OF accumulate_foldl out r] obtain ys where
    "trend r = (if 0 < window_change ys then ''Increase'' else ''Decrease'')"
    and "first_amount r = snd (hd (last_3 ys))" and "last_amount r = snd (last (last_3 ys))"
    by blast
  then show ?thesis by (simp add: window_change_def)
qed

text \<open>
  Claim C9. Two input sequences that differ only in the trend field of their records
  give the same output, and the label of every output row is Increase when the change
  \<open>(last_amount - first_amount) / first_amount\<close> of the row is positive and Decrease
  otherwise.
\<close>

theorem trend_hint_ignored:
  assumes "list_all2 (\<lambda>a b. without_trend a = without_trend b) xs ys"
  shows "filter_20_percent_change cv cy xs = filter_20_percent_change cv cy ys
       \<and> (\<forall>rows l5. filter_20_percent_change cv cy xs = Inr (rows, l5) \<longrightarrow>
            (\<forall>r \<in> set rows.
               trend r = (if 0 < (last_amount r - first_amount r) / first_amount r
                          then ''Increase'' else ''Decrease'')))"
proof -
  have "blank_trends (foldl (step cv (+)) empty_state xs)
      = blank_trends (foldl (step cv (+)) empty_state ys)"
    by (rule blank_trends_foldl[OF assms]) simp
  then have "filter_20_percent_change cv cy xs = filter_20_percent_change cv cy ys"
    by (simp add: engine_blank)
  then show ?thesis using engine_trend_label by blast
qed

text \<open>
  The same two records once with the hint Decrease and once with the hint Increase on the
  first and none on the second: both runs report an increase of 30 percent.
\<close>

theorem trend_hint_ignored_witness:
  "list_all2 (\<lambda>a b. without_trend a = without_trend b)
     [JObj [(''award_id'', JStr ''A''), (''action_date'', JStr ''2021-03-01''),
            (''federal_action_obligation'', JInt 100), (''trend'', JStr ''Decrease'')],
      JObj [(''award_id'', JStr ''A''), (''action_date'', JStr ''2022-03-01''),
            (''federal_action_obligation'', JInt 130), (''trend'', JStr ''Decrease'')]]
     [JObj [(''award_id'', JStr ''A''), (''action_date'', JStr ''2021-03-01''),
            (''federal_action_obligation'', JInt 100), (''trend'', JStr ''Increase'')],
      JObj [(''award_id'', JStr ''A''), (''action_date'', JStr ''2022-03-01''),
            (''federal_action_obligation'', JInt 130)]]
   \<and> filter_20_percent_change plain_conv 2023
     [JObj [(''award_id'', JStr ''A''), (''action_date'', JStr ''2021-03-01''),
            (''federal_action_obligation'', JInt 100), (''trend'', JStr ''Decrease'')],
      JObj [(''award_id'', JStr ''A''), (''action_date'', JStr ''2022-03-01''),
            (''federal_action_obligation'', JInt 130), (''trend'', JStr ''Decrease'')]]
   = filter_20_percent_change plain_conv 2023
     [JObj [(''award_id'', JStr ''A''), (''action_date'', JStr ''2021-03-01''),
            (''federal_action_obligation'', JInt 100), (''trend'', JStr ''Increase'')],
      JObj [(''award_id'', JStr ''A''), (''action_date'', JStr ''2022-03-01''),
            (''federal_action_obligation'', JInt 130)]]
   \<and> filter_20_percent_change plain_conv 2023
     [JObj [(''award_id'', JStr ''A''), (''action_date'', JStr ''2021-03-01''),
            (''federal_action_obligation'', JInt 100), (''trend'', JStr ''Decrease'')],
      JObj [(''award_id'', JStr ''A''), (''action_date'', JStr ''2022-03-01''),
            (''federal_action_obligation'', JInt 130), (''trend'', JStr ''Decrease'')]]
   = Inr ([\<lparr>award_id = KStr ''A'', recipient_name = JStr [], awarding_agency_code = JStr [],
             first_year = 2021, first_amount = 100, last_year = 2022, last_amount = 130,
             change_percent = 30, trend = ''Increase'', total_5yr_funding = 230,
             funding = [(2018, 0), (2019, 0), (2020, 0), (2021, 100), (2022, 130)],
             abs_change = 30\<rparr>],
          [2018, 2019, 2020, 2021, 2022])"
proof -
  have h: "list_all2 (\<lambda>a b. without_trend a = without_trend b)
     [JObj [(''award_id'', JStr ''A''), (''action_date'', JStr ''2021-03-01''),
            (''federal_action_obligation'', JInt 100), (''trend'', JStr ''Decrease'')],
      JObj [(''award_id'', JStr ''A''), (''action_date'', JStr ''2022-03-01''),
            (''federal_action_obligation'', JInt 130), (''trend'', JStr ''Decrease'')]]
     [JObj [(''award_id'', JStr ''A''), (''action_date'', JStr ''2021-03-01''),
            (''federal_action_obligation'', JInt 100), (''trend'', JStr ''Increase'')],
      JObj [(''award_id'', JStr ''A''), (''action_date'', JStr ''2022-03-01''),
            (''federal_action_obligation'', JInt 130)]]"
    by (simp add: without_trend_def)
  have f: "filter_20_percent_change plain_conv 2023
     [JObj [(''award_id'', JStr ''A''), (''action_date'', JStr ''2021-03-01''),
            (''federal_action_obligation'', JInt 100), (''trend'', JStr ''Decrease'')],
      JObj [(''award_id'', JStr ''A''), (''action_date'', JStr ''2022-03-01''),
            (''federal_action_obligation'', JInt 130), (''trend'', JStr ''Decrease'')]]
   = Inr ([\<lparr>award_id = KStr ''A'', recipient_name = JStr [], awarding_agency_code = JStr [],
             first_year = 2021, first_amount = 100, last_year = 2022, last_amount = 130,
             change_percent = 30, trend = ''Increase'', total_5yr_funding = 230,
             funding = [(2018, 0), (2019, 0), (2020, 0), (2021, 100), (2022, 130)],
             abs_change = 30\<rparr>],
          [2018, 2019, 2020, 2021, 2022])"
    by (simp add: eval_defs)
  from trend_hint_ignored[OF h, of plain_conv 2023] h f show ?thesis by simp
qed

section \<open>The order of accumulation\<close>

lemma map_of_touch_year:
  "map_of (touch_year y ys) = (case map_of ys y of None \<Rightarrow> (map_of ys)(y \<mapsto> 0) | Some v \<Rightarrow> map_of ys)"
  by (simp add: touch_year_def update_conv' split: option.splits)

lemma cells_touch:
  "cells (st\<lparr>award_years := touch k y (award_years st)\<rparr>) = touch_cell (cells st) (k, y)"
proof (rule ext)
  fix c :: "key \<times> int"
  obtain k' y' where c: "c = (k', y')" by (cases c)
  show "cells (st\<lparr>award_years := touch k y (award_years st)\<rparr>) c = touch_cell (cells st) (k, y) c"
    by (cases "map_of (award_years st) k")
       (auto simp: c cells_def touch_cell_def map_of_touch map_of_touch_year years_at_def
             split: option.splits)
qed

lemma cell_value_touch_year:
  "cell_value (touch_year y ys) y = (case map_of ys y of None \<Rightarrow> 0 | Some v \<Rightarrow> v)"
  by (simp add: cell_value_def map_of_touch_year split: option.splits)

lemma cells_store:
  "cells (st\<lparr>award_years := store_cell add k y x (touch k y (award_years st)), award_info := i\<rparr>)
     = add_cell add (cells st) (k, y) x"
proof (rule ext)
  fix c :: "key \<times> int"
  obtain k' y' where c: "c = (k', y')" by (cases c)
  show "cells (st\<lparr>award_years := store_cell add k y x (touch k y (award_years st)), award_info := i\<rparr>) c
      = add_cell add (cells st) (k, y) x c"
    by (cases "map_of (award_years st) k")
       (auto simp: c cells_def add_cell_def map_of_store_cell map_of_touch map_of_touch_year
             cell_value_touch_year update_conv' years_at_def split: option.splits)
qed

lemma cells_of_step: "cells (step cv add st a) = cells_step cv add a (cells st)"
  by (auto simp: step_cases cells_step_def effect_def cells_touch cells_store split: sum.splits)

lemma cells_foldl:
  "cells (foldl (step cv add) st xs) = fold (cells_step cv add) xs (cells st)"
  by (induction xs arbitrary: st) (simp_all add: cells_of_step)

lemma touch_cell_commute:
  "touch_cell (touch_cell m c) c' = touch_cell (touch_cell m c') c"
  by (auto simp: touch_cell_def fun_eq_iff split: option.splits)

lemma touch_add_commute:
  "touch_cell (add_cell add m c x) c' = add_cell add (touch_cell m c') c x"
  by (auto simp: touch_cell_def add_cell_def fun_eq_iff split: option.splits)

lemma add_cell_commute:
  assumes "\<forall>v x x'. add (add v x) x' = add (add v x') x"
  shows "add_cell add (add_cell add m c x) c' x' = add_cell add (add_cell add m c' x') c x"
  using assms by (auto simp: add_cell_def fun_eq_iff split: option.splits)

lemma cells_step_commute:
  assumes comm: "\<forall>a b. add a b = add b a"
    and assoc: "\<forall>a b c. add (add a b) c = add a (add b c)"
  shows "cells_step cv add a \<circ> cells_step cv add b = cells_step cv add b \<circ> cells_step cv add a"
proof (rule ext)
  fix m
  have sw: "\<forall>v x x'. add (add v x) x' = add (add v x') x"
    using comm assoc by metis
  note aa = add_cell_commute[OF sw]
  show "(cells_step cv add a \<circ> cells_step cv add b) m = (cells_step cv add b \<circ> cells_step cv add a) m"
  proof (cases "effect cv a")
    case None
    then show ?thesis by (simp add: cells_step_def)
  next
    case (Some p)
    obtain c x where p: "p = (c, x)" by (cases p)
    show ?thesis
    proof (cases "effect cv b")
      case None
      then show ?thesis by (simp add: cells_step_def)
    next
      case (Some q)
      obtain c' x' where q: "q = (c', x')" by (cases q)
      show ?thesis
      proof (cases x)
        case None
        show ?thesis
        proof (cases x')
          case None
          with \<open>x = None\<close> \<open>effect cv a = Some p\<close> \<open>effect cv b = Some q\<close> p q show ?thesis
            by (simp add: cells_step_def touch_cell_commute)
        next
          case (Some v')
          with \<open>x = None\<close> \<open>effect cv a = Some p\<close> \<open>effect cv b = Some q\<close> p q show ?thesis
            by (simp add: cells_step_def touch_add_commute)
        qed
      next
        case (Some v)
        show ?thesis
        proof (cases x')
          case None
          with \<open>x = Some v\<close> \<open>effect cv a = Some p\<close> \<open>effect cv b = Some q\<close> p q show ?thesis
            by (simp add: cells_step_def touch_add_commute)
        next
          case (Some v')
          with \<open>x = Some v\<close> \<open>effect cv a = Some p\<close> \<open>effect cv b = Some q\<close> p q show ?thesis
            by (simp add: cells_step_def) (rule aa)
        qed
      qed
    qed
  qed
qed

text \<open>The cell a record creates, if it gets that far.\<close>

lemma dom_cells_step:
  "dom (cells_step cv add a m) = dom m \<union> (case effect cv a of None \<Rightarrow> {} | Some (c, x) \<Rightarrow> {c})"
  by (auto simp: cells_step_def touch_cell_def add_cell_def split: option.splits if_splits)

lemma dom_cells_fold:
  "dom (fold (cells_step cv add) xs m) =
     dom m \<union> (\<Union>a \<in> set xs. case effect cv a of None \<Rightarrow> {} | Some (c, x) \<Rightarrow> {c})"
  by (induction xs arbitrary: m) (auto simp: dom_cells_step)

text \<open>
  Claim C5, as stated, fails: the totals are Python floats, and float addition rounds.
  Three records of one award and one year carry the amounts \<open>2 ^ 53\<close>, \<open>1\<close> and
  \<open>- 2 ^ 53\<close>. In this order the cell ends at 0, because \<open>2 ^ 53 + 1\<close> rounds to
  \<open>2 ^ 53\<close>; with the last two records swapped it ends at 1.
\<close>

theorem accumulation_order_counterexample:
  "mset [plain_award ''A'' ''2021-01-01'' (JInt 9007199254740992),
         plain_award ''A'' ''2021-01-01'' (JInt 1),
         plain_award ''A'' ''2021-01-01'' (JInt (- 9007199254740992))]
   = mset [plain_award ''A'' ''2021-01-01'' (JInt 9007199254740992),
           plain_award ''A'' ''2021-01-01'' (JInt (- 9007199254740992)),
           plain_award ''A'' ''2021-01-01'' (JInt 1)]
   \<and> accumulate plain_conv double_add
        [plain_award ''A'' ''2021-01-01'' (JInt 9007199254740992),
         plain_award ''A'' ''2021-01-01'' (JInt 1),
         plain_award ''A'' ''2021-01-01'' (JInt (- 9007199254740992))]
     = Inr \<lparr>award_years = [(KStr ''A'', [(2021, 0)])],
            award_info =
              [(KStr ''A'', \<lparr>info_recipient_name = JStr [], info_awarding_agency_code = JStr [],
                              info_trend = JStr []\<rparr>)]\<rparr>
   \<and> accumulate plain_conv double_add
        [plain_award ''A'' ''2021-01-01'' (JInt 9007199254740992),
         plain_award ''A'' ''2021-01-01'' (JInt (- 9007199254740992)),
         plain_award ''A'' ''2021-01-01'' (JInt 1)]
     = Inr \<lparr>award_years = [(KStr ''A'', [(2021, 1)])],
            award_info =
              [(KStr ''A'', \<lparr>info_recipient_name = JStr [], info_awarding_agency_code = JStr [],
                              info_trend = JStr []\<rparr>)]\<rparr>"
  by (simp add: eval_defs double_add_def round_double_def floor_log2_def)

text \<open>
  Claim C5, amended. For any permutation of the input the accumulator has the same
  (identifier, year) cells, whatever the addition; and it has the same totals when the
  addition is commutative and associative, as exact addition is and as float addition
  is as long as no sum is rounded.
\<close>

theorem accumulation_order:
  assumes "mset xs = mset ys"
    and "accumulate cv add xs = Inr st"
    and "accumulate cv add ys = Inr st'"
  shows "dom (cells st) = dom (cells st')
       \<and> ((\<forall>a b. add a b = add b a) \<and> (\<forall>a b c. add (add a b) c = add a (add b c))
            \<longrightarrow> cells st = cells st')"
proof -
  from assms(2,3) have st: "st = foldl (step cv add) empty_state xs"
    and st': "st' = foldl (step cv add) empty_state ys"
    by (simp_all add: accumulate_foldl)
  from assms(1) have "set xs = set ys" by (rule mset_eq_setD)
  then have d: "dom (cells st) = dom (cells st')"
    by (simp add: st st' cells_foldl dom_cells_fold)
  have "cells st = cells st'"
    if ac: "(\<forall>a b. add a b = add b a) \<and> (\<forall>a b c. add (add a b) c = add a (add b c))"
  proof -
    from ac have "cells_step cv add a \<circ> cells_step cv add b
        = cells_step cv add b \<circ> cells_step cv add a" for a b
      by (intro cells_step_commute) blast+
    then have "fold (cells_step cv add) xs = fold (cells_step cv add) ys"
      using assms(1) by (intro fold_multiset_equiv) blast+
    then show ?thesis by (simp add: st st' cells_foldl)
  qed
  with d show ?thesis by blast
qed

text \<open>
  Four records, one of them with a null amount, and the same records reversed, added
  exactly: the two accumulators list their entries in different orders and hold the same
  cells.
\<close>

theorem accumulation_order_witness:
  "mset [plain_award ''A'' ''2021-01-01'' (JInt 100), plain_award ''B'' ''2022-01-01'' (JInt 50),
         plain_award ''A'' ''2021-07-01'' (JInt 30), plain_award ''B'' ''2021-01-01'' JNull]
   = mset [plain_award ''B'' ''2021-01-01'' JNull, plain_award ''A'' ''2021-07-01'' (JInt 30),
           plain_award ''B'' ''2022-01-01'' (JInt 50), plain_award ''A'' ''2021-01-01'' (JInt 100)]
   \<and> (\<forall>a b :: real. a + b = b + a) \<and> (\<forall>a b c :: real. a + b + c = a + (b + c))
   \<and> accumulate plain_conv (+)
        [plain_award ''A'' ''2021-01-01'' (JInt 100), plain_award ''B'' ''2022-01-01'' (JInt 50),
         plain_award ''A'' ''2021-07-01'' (JInt 30), plain_award ''B'' ''2021-01-01'' JNull]
     = Inr \<lparr>award_years = [(KStr ''A'', [(2021, 130)]), (KStr ''B'', [(2022, 50), (2021, 0)])],
            award_info =
              [(KStr ''A'', \<lparr>info_recipient_name = JStr [], info_awarding_agency_code = JStr [],
                              info_trend = JStr []\<rparr>),
               (KStr ''B'', \<lparr>info_recipient_name = JStr [], info_awarding_agency_code = JStr [],
                              info_trend = JStr []\<rparr>)]\<rparr>
   \<and> accumulate plain_conv (+)
        [plain_award ''B'' ''2021-01-01'' JNull, plain_award ''A'' ''2021-07-01'' (JInt 30),
         plain_award ''B'' ''2022-01-01'' (JInt 50), plain_award ''A'' ''2021-01-01'' (JInt 100)]
     = Inr \<lparr>award_years = [(KStr ''B'', [(2021, 0), (2022, 50)]), (KStr ''A'', [(2021, 130)])],
            award_info =
              [(KStr ''A'', \<lparr>info_recipient_name = JStr [], info_awarding_agency_code = JStr [],
                              info_trend = JStr []\<rparr>),
               (KStr ''B'', \<lparr>info_recipient_name = JStr [], info_awarding_agency_code = JStr [],
                              info_trend = JStr []\<rparr>)]\<rparr>
   \<and> cells \<lparr>award_years = [(KStr ''A'', [(2021, 130)]), (KStr ''B'', [(2022, 50), (2021, 0)])],
            award_info =
              [(KStr ''A'', \<lparr>info_recipient_name = JStr [], info_awarding_agency_code = JStr [],
                              info_trend = JStr []\<rparr>),
               (KStr ''B'', \<lparr>info_recipient_name = JStr [], info_awarding_agency_code = JStr [],
                              info_trend = JStr []\<rparr>)]\<rparr>
     = cells \<lparr>award_years = [(KStr ''B'', [(2021, 0), (2022, 50)]), (KStr ''A'', [(2021, 130)])],
            award_info =
              [(KStr ''A'', \<lparr>info_recipient_name = JStr [], info_awarding_agency_code = JStr [],
                              info_trend = JStr []\<rparr>),
               (KStr ''B'', \<lparr>info_recipient_name = JStr [], info_awarding_agency_code = JStr [],
                              info_trend = JStr []\<rparr>)]\<rparr>"
proof -
  have p: "mset [plain_award ''A'' ''2021-01-01'' (JInt 100), plain_award ''B'' ''2022-01-01'' (JInt 50),
         plain_award ''A'' ''2021-07-01'' (JInt 30), plain_award ''B'' ''2021-01-01'' JNull]
   = mset [plain_award ''B'' ''2021-01-01'' JNull, plain_award ''A'' ''2021-07-01'' (JInt 30),
           plain_award ''B'' ''2022-01-01'' (JInt 50), plain_award ''A'' ''2021-01-01'' (JInt 100)]"
    by (simp add: add_mset_commute)
  have x: "accumulate plain_conv (+)
        [plain_award ''A'' ''2021-01-01'' (JInt 100), plain_award ''B'' ''2022-01-01'' (JInt 50),
         plain_award ''A'' ''2021-07-01'' (JInt 30), plain_award ''B'' ''2021-01-01'' JNull]
     = Inr \<lparr>award_years = [(KStr ''A'', [(2021, 130)]), (KStr ''B'', [(2022, 50), (2021, 0)])],
            award_info =
              [(KStr ''A'', \<lparr>info_recipient_name = JStr [], info_awarding_agency_code = JStr [],
                              info_trend = JStr []\<rparr>),
               (KStr ''B'', \<lparr>info_recipient_name = JStr [], info_awarding_agency_code = JStr [],
                              info_trend = JStr []\<rparr>)]\<rparr>"
    by (simp add: eval_defs)
  have y: "accumulate plain_conv (+)
        [plain_award ''B'' ''2021-01-01'' JNull, plain_award ''A'' ''2021-07-01'' (JInt 30),
         plain_award ''B'' ''2022-01-01'' (JInt 50), plain_award ''A'' ''2021-01-01'' (JInt 100)]
     = Inr \<lparr>award_years = [(KStr ''B'', [(2021, 0), (2022, 50)]), (KStr ''A'', [(2021, 130)])],
            award_info =
              [(KStr ''A'', \<lparr>info_recipient_name = JStr [], info_awarding_agency_code = JStr [],
                              info_trend = JStr []\<rparr>),
               (KStr ''B'', \<lparr>info_recipient_name = JStr [], info_awarding_agency_code = JStr [],
                              info_trend = JStr []\<rparr>)]\<rparr>"
    by (simp add: eval_defs)
  have ac: "(\<forall>a b :: real. a + b = b + a) \<and> (\<forall>a b c :: real. a + b + c = a + (b + c))"
    by (simp add: add.commute)
  from accumulation_order[OF p x y] ac p x y show ?thesis by blast
qed

section \<open>The summary\<close>



















text \<open>The definitions unfolded to run the reports on a concrete input.\<close>

lemmas report_defs = run_main_def apply_trend_only_def py_lower_def lower_char_def
  save_summary_csv_def summary_totals_def add_funding_def dict_of_keys_def funding_get_def
  save_recipient_summary_def add_recipient_def new_recipient_def pivot_row_def major_trend_def



section \<open>The recipient rollup\<close>

lemma max_fold_first:
  assumes "\<forall>l \<in> set pre. f l < (f b :: nat)" and "\<forall>l \<in> set mid. f l \<le> f b"
  shows "\<exists>pre' post. pre @ b # mid @ ys = pre' @ fold (\<lambda>y best. if f best < f y then y else best) ys b # post
           \<and> (\<forall>l \<in> set pre'. f l < f (fold (\<lambda>y best. if f best < f y then y else best) ys b))
           \<and> (\<forall>l \<in> set post. f l \<le> f (fold (\<lambda>y best. if f best < f y then y else best) ys b))"
  using assms
proof (induction ys arbitrary: pre b mid)
  case Nil
  then show ?case by auto
next
  case (Cons y ys)
  show ?case
  proof (cases "f b < f y")
    case True
    have "f l < f y" if "l \<in> set pre" for l
      using Cons.prems(1) that True by (meson less_trans)
    moreover have "f l < f y" if "l \<in> set mid" for l
      using Cons.prems(2) that True by (meson le_less_trans)
    ultimately have "\<forall>l \<in> set (pre @ b # mid). f l < f y"
      using True by auto
    from Cons.IH[of "pre @ b # mid" y "[]", OF this] True show ?thesis by simp
  next
    case False
    have "\<forall>l \<in> set (mid @ [y]). f l \<le> f b" using Cons.prems False by auto
    from Cons.IH[of pre b "mid @ [y]", OF Cons.prems(1) this] False show ?thesis by simp
  qed
qed

lemma py_max_key_first:
  assumes "py_max_key f xs = Inr m"
  shows "\<exists>pre post. xs = pre @ m # post \<and> (\<forall>l \<in> set pre. f l < f m) \<and> (\<forall>l \<in> set post. f l \<le> f m)"
proof (cases xs)
  case Nil
  with assms show ?thesis by simp
next
  case (Cons x ys)
  with assms have m: "m = fold (\<lambda>y best. if f best < f y then y else best) ys x" by simp
  from max_fold_first[of "[]" f x "[]" ys] show ?thesis unfolding m Cons by simp
qed

lemma add_recipient_update:
  assumes "add_recipient last_5 recipients a = Inr recipients'"
  shows "\<exists>rec r. hash_key (recipient_name a) = Inr rec \<and> recipients' = AList.update rec r recipients
           \<and> rc_trends r = trends_of recipients rec @ [trend a]"
  using assms
  by (auto simp: add_recipient_def Let_def trends_of_def new_recipient_def
      split: sum.splits option.splits)

lemma trends_of_add_recipient:
  assumes "add_recipient last_5 recipients a = Inr recipients'"
  shows "trends_of recipients' rec =
           trends_of recipients rec @ (if hash_key (recipient_name a) = Inr rec then [trend a] else [])"
    and "fst ` set recipients' = fst ` set recipients \<union> {rec. hash_key (recipient_name a) = Inr rec}"
    and "distinct (map fst recipients) \<Longrightarrow> distinct (map fst recipients')"
proof -
  from add_recipient_update[OF assms] obtain rec0 r where
    h: "hash_key (recipient_name a) = Inr rec0" and u: "recipients' = AList.update rec0 r recipients"
    and t: "rc_trends r = trends_of recipients rec0 @ [trend a]" by blast
  show "trends_of recipients' rec =
           trends_of recipients rec @ (if hash_key (recipient_name a) = Inr rec then [trend a] else [])"
    using h t by (simp add: u trends_of_def update_conv')
  show "fst ` set recipients' = fst ` set recipients \<union> {rec. hash_key (recipient_name a) = Inr rec}"
    using h by (auto simp: u dom_update)
  show "distinct (map fst recipients) \<Longrightarrow> distinct (map fst recipients')"
    by (simp add: u distinct_update)
qed

lemma group_recipients_labels:
  assumes "group_recipients last_5 recipients data = Inr recipients'"
  shows "trends_of recipients' rec = trends_of recipients rec @ group_labels data rec"
    and "fst ` set recipients' =
           fst ` set recipients \<union> {rec. \<exists>a \<in> set data. hash_key (recipient_name a) = Inr rec}"
    and "distinct (map fst recipients) \<Longrightarrow> distinct (map fst recipients')"
  using assms
proof (induction data arbitrary: recipients)
  case Nil
  {
    case 1 then show ?case by (simp add: group_labels_def)
  next
    case 2 then show ?case by simp
  next
    case 3 then show ?case by simp
  }
next
  case (Cons a data)
  {
    case 1
    then obtain r1 where r1: "add_recipient last_5 recipients a = Inr r1"
      "group_recipients last_5 r1 data = Inr recipients'" by (auto split: sum.splits)
    from Cons.IH(1)[OF r1(2)] trends_of_add_recipient(1)[OF r1(1)]
    show ?case by (simp add: group_labels_def)
  next
    case 2
    then obtain r1 where r1: "add_recipient last_5 recipients a = Inr r1"
      "group_recipients last_5 r1 data = Inr recipients'" by (auto split: sum.splits)
    from Cons.IH(2)[OF r1(2)] trends_of_add_recipient(2)[OF r1(1)]
    show ?case by auto
  next
    case 3
    then obtain r1 where r1: "add_recipient last_5 recipients a = Inr r1"
      "group_recipients last_5 r1 data = Inr recipients'" by (auto split: sum.splits)
    from Cons.IH(3)[OF _ r1(2)] trends_of_add_recipient(3)[OF r1(1)] 3(1)
    show ?case by simp
  }
qed

lemma pivot_rows_items:
  assumes "pivot_rows set_iter last_5 items = Inr ps"
  shows "map pv_recipient_name ps = map fst items"
    and "p \<in> set ps \<Longrightarrow>
           \<exists>r. (pv_recipient_name p, r) \<in> set items \<and>
               major_trend set_iter (rc_trends r) = Inr (pv_major_trend p)"
  using assms
proof (induction items arbitrary: ps)
  case Nil
  {
    case 1 then show ?case by simp
  next
    case 2 then show ?case by simp
  }
next
  case (Cons item items)
  {
    case 1
    then obtain q qs where q: "pivot_row set_iter last_5 item = Inr q"
      "pivot_rows set_iter last_5 items = Inr qs" "ps = q # qs" by (auto split: sum.splits)
    from q(1) have "pv_recipient_name q = fst item"
      by (cases item) (auto simp: pivot_row_def Let_def split: sum.splits)
    with Cons.IH(1)[OF q(2)] q(3) show ?case by simp
  next
    case 2
    then obtain q qs where q: "pivot_row set_iter last_5 item = Inr q"
      "pivot_rows set_iter last_5 items = Inr qs" "ps = q # qs" by (auto split: sum.splits)
    from q(1) have hd: "\<exists>r. (pv_recipient_name q, r) = item \<and>
        major_trend set_iter (rc_trends r) = Inr (pv_major_trend q)"
      by (cases item) (auto simp: pivot_row_def Let_def split: sum.splits)
    show ?case
    proof (cases "p = q")
      case True
      with hd show ?thesis by auto
    next
      case False
      with 2(1) q(3) have "p \<in> set qs" by simp
      from Cons.IH(2)[OF this q(2)] show ?thesis by auto
    qed
  }
qed

lemma group_recipients_start:
  assumes "group_recipients last_5 [] data = Inr recipients"
  shows "distinct (map fst recipients)"
    and "fst ` set recipients = {rec. \<exists>a \<in> set data. hash_key (recipient_name a) = Inr rec}"
    and "(rec, r) \<in> set recipients \<Longrightarrow> rc_trends r = group_labels data rec"
proof -
  show d: "distinct (map fst recipients)"
    using group_recipients_labels(3)[OF assms] by simp
  show "fst ` set recipients = {rec. \<exists>a \<in> set data. hash_key (recipient_name a) = Inr rec}"
    using group_recipients_labels(2)[OF assms] by simp
  assume "(rec, r) \<in> set recipients"
  with d have "map_of recipients rec = Some r" by simp
  then have "trends_of recipients rec = rc_trends r" by (simp add: trends_of_def)
  with group_recipients_labels(1)[OF assms, of rec] show "rc_trends r = group_labels data rec"
    by (simp add: trends_of_def)
qed

lemma group_recipients_hashable:
  assumes "group_recipients last_5 recipients data = Inr recipients'" and "a \<in> set data"
  shows "\<exists>rec. hash_key (recipient_name a) = Inr rec"
  using assms
proof (induction data arbitrary: recipients)
  case Nil
  then show ?case by simp
next
  case (Cons b data)
  from Cons.prems(1) obtain r1 where r1: "add_recipient last_5 recipients b = Inr r1"
    "group_recipients last_5 r1 data = Inr recipients'" by (auto split: sum.splits)
  show ?case
  proof (cases "a = b")
    case True
    with add_recipient_update[OF r1(1)] show ?thesis by blast
  next
    case False
    with Cons.prems(2) have "a \<in> set data" by simp
    from Cons.IH[OF r1(2) this] show ?thesis .
  qed
qed

text \<open>
  Claim C4, as stated, fails when the first-encountered label is meant in the order of
  the rows: \<^verbatim>\<open>max\<close> runs through \<^verbatim>\<open>set(trends)\<close>, and a Python set of strings is
  iterated in the order of their hashes. One recipient has the labels Decrease and then
  Increase, once each; when the set is iterated as Increase, Decrease (as CPython 3.11
  does under \<^verbatim>\<open>PYTHONHASHSEED=3\<close>) the major trend is Increase.
\<close>

theorem majority_trend_counterexample:
  "map trend [plain_row ''1'' ''BETA'' ''Decrease'' (- 50), plain_row ''2'' ''BETA'' ''Increase'' 40]
     = [''Decrease'', ''Increase'']
   \<and> (rev \<circ> remdups) [''Decrease'', ''Increase''] = [''Increase'', ''Decrease'']
   \<and> save_recipient_summary (rev \<circ> remdups)
       [plain_row ''1'' ''BETA'' ''Decrease'' (- 50), plain_row ''2'' ''BETA'' ''Increase'' 40]
       [2021, 2022]
     = Inr [\<lparr>pv_recipient_name = KStr ''BETA'', pv_award_count = 2, pv_total_5yr_funding = 390,
              pv_average_change_percent = - 5, pv_major_trend = ''Increase'',
              pv_funding = [(2021, 200), (2022, 190)]\<rparr>]"
  by (simp add: report_defs plain_row_def hash_key_def cell_value_def sort_desc_def
      round2_def round_half_even_def Let_def)

text \<open>
  Claim C4, amended. In the recipient rollup the major trend of a recipient is a most
  frequent label among the trend labels of that recipient's rows, and of the labels that
  are most frequent it is the one that comes first in the iteration over the set of
  labels that \<^verbatim>\<open>max\<close> runs through: every label before it there is strictly less
  frequent. Every recipient of the rows has its row in the rollup.
\<close>

theorem majority_trend_is_mode:
  assumes "save_recipient_summary set_iter data last_5 = Inr pivots"
    and "p \<in> set pivots"
    and "labels = map trend (filter (\<lambda>a. hash_key (recipient_name a) = Inr (pv_recipient_name p)) data)"
    and "distinct (set_iter labels)"
    and "set (set_iter labels) = set labels"
  shows "labels \<noteq> []
       \<and> pv_major_trend p \<in> set labels
       \<and> (\<forall>l \<in> set labels. count_list labels l \<le> count_list labels (pv_major_trend p))
       \<and> (\<exists>pre post. set_iter labels = pre @ pv_major_trend p # post
             \<and> (\<forall>l \<in> set pre. count_list labels l < count_list labels (pv_major_trend p)))
       \<and> (\<forall>a \<in> set data. \<exists>q \<in> set pivots. hash_key (recipient_name a) = Inr (pv_recipient_name q))"
proof -
  from assms(1) obtain recipients ps where
    g: "group_recipients last_5 [] data = Inr recipients"
    and ps: "pivot_rows set_iter last_5 recipients = Inr ps"
    and pv: "pivots = sort_desc pv_total_5yr_funding ps"
    by (auto simp: save_recipient_summary_def split: sum.splits)
  from assms(2) pv have "p \<in> set ps" by simp
  from pivot_rows_items(2)[OF ps this] obtain r where
    r: "(pv_recipient_name p, r) \<in> set recipients"
    and m: "major_trend set_iter (rc_trends r) = Inr (pv_major_trend p)" by blast
  from group_recipients_start(3)[OF g r] assms(3) have tr: "rc_trends r = labels"
    by (simp add: group_labels_def)
  from r have "pv_recipient_name p \<in> fst ` set recipients" by force
  with group_recipients_start(2)[OF g] obtain a where
    "a \<in> set data" "hash_key (recipient_name a) = Inr (pv_recipient_name p)" by auto
  then have "trend a \<in> set labels" by (auto simp: assms(3))
  then have ne: "labels \<noteq> []" by auto
  with m tr have "py_max_key (count_list labels) (set_iter labels) = Inr (pv_major_trend p)"
    by (simp add: major_trend_def)
  from py_max_key_first[OF this] obtain pre post where
    dec: "set_iter labels = pre @ pv_major_trend p # post"
    and before: "\<forall>l \<in> set pre. count_list labels l < count_list labels (pv_major_trend p)"
    and after: "\<forall>l \<in> set post. count_list labels l \<le> count_list labels (pv_major_trend p)"
    by blast
  from dec assms(5) have mem: "pv_major_trend p \<in> set labels" by auto
  have mode: "count_list labels l \<le> count_list labels (pv_major_trend p)" if "l \<in> set labels" for l
  proof -
    from that assms(5) dec have "l \<in> set pre \<or> l = pv_major_trend p \<or> l \<in> set post" by auto
    with before after show ?thesis by (auto intro: less_imp_le)
  qed
  have cover: "\<exists>q \<in> set pivots. hash_key (recipient_name a) = Inr (pv_recipient_name q)"
    if "a \<in> set data" for a
  proof -
    from group_recipients_hashable[OF g that] obtain rec where
      rec: "hash_key (recipient_name a) = Inr rec" by blast
    with that group_recipients_start(2)[OF g] have "rec \<in> fst ` set recipients" by auto
    then have "rec \<in> set (map pv_recipient_name ps)"
      using pivot_rows_items(1)[OF ps] by simp
    then obtain q where "q \<in> set ps" "pv_recipient_name q = rec" by auto
    with rec pv show ?thesis by auto
  qed
  from ne mem mode dec before cover show ?thesis by blast
qed

text \<open>
  Two recipients. ACME has the labels Decrease, Increase, Decrease. BETA has Increase and
  Decrease once each; the set is iterated here as Increase, Decrease, and the major
  trend of BETA is Increase.
\<close>

theorem majority_trend_is_mode_witness:
  "save_recipient_summary remdups
     [plain_row ''1'' ''ACME'' ''Decrease'' (- 30), plain_row ''2'' ''BETA'' ''Increase'' 40,
      plain_row ''3'' ''ACME'' ''Increase'' 25, plain_row ''4'' ''BETA'' ''Decrease'' (- 50),
      plain_row ''5'' ''ACME'' ''Decrease'' (- 60)] [2021, 2022]
   = Inr [\<lparr>pv_recipient_name = KStr ''ACME'', pv_award_count = 3, pv_total_5yr_funding = 535,
            pv_average_change_percent = - 21.67, pv_major_trend = ''Decrease'',
            pv_funding = [(2021, 300), (2022, 235)]\<rparr>,
          \<lparr>pv_recipient_name = KStr ''BETA'', pv_award_count = 2, pv_total_5yr_funding = 390,
            pv_average_change_percent = - 5, pv_major_trend = ''Increase'',
            pv_funding = [(2021, 200), (2022, 190)]\<rparr>]
   \<and> map trend (filter (\<lambda>a. hash_key (recipient_name a) = Inr (KStr ''BETA''))
        [plain_row ''1'' ''ACME'' ''Decrease'' (- 30), plain_row ''2'' ''BETA'' ''Increase'' 40,
         plain_row ''3'' ''ACME'' ''Increase'' 25, plain_row ''4'' ''BETA'' ''Decrease'' (- 50),
         plain_row ''5'' ''ACME'' ''Decrease'' (- 60)])
     = [''Increase'', ''Decrease'']
   \<and> remdups [''Increase'', ''Decrease''] = [''Increase'', ''Decrease'']
   \<and> count_list [''Increase'', ''Decrease''] ''Decrease''
       \<le> count_list [''Increase'', ''Decrease''] ''Increase''"
proof -
  have e: "save_recipient_summary remdups
     [plain_row ''1'' ''ACME'' ''Decrease'' (- 30), plain_row ''2'' ''BETA'' ''Increase'' 40,
      plain_row ''3'' ''ACME'' ''Increase'' 25, plain_row ''4'' ''BETA'' ''Decrease'' (- 50),
      plain_row ''5'' ''ACME'' ''Decrease'' (- 60)] [2021, 2022]
   = Inr [\<lparr>pv_recipient_name = KStr ''ACME'', pv_award_count = 3, pv_total_5yr_funding = 535,
            pv_average_change_percent = - 21.67, pv_major_trend = ''Decrease'',
            pv_funding = [(2021, 300), (2022, 235)]\<rparr>,
          \<lparr>pv_recipient_name = KStr ''BETA'', pv_award_count = 2, pv_total_5yr_funding = 390,
            pv_average_change_percent = - 5, pv_major_trend = ''Increase'',
            pv_funding = [(2021, 200), (2022, 190)]\<rparr>]"
    by (simp add: report_defs plain_row_def hash_key_def cell_value_def sort_desc_def
        round2_def round_half_even_def Let_def)
  have m: "\<lparr>pv_recipient_name = KStr ''BETA'', pv_award_count = 2, pv_total_5yr_funding = 390,
            pv_average_change_percent = - 5, pv_major_trend = ''Increase'',
            pv_funding = [(2021, 200), (2022, 190)]\<rparr>
      \<in> set [\<lparr>pv_recipient_name = KStr ''ACME'', pv_award_count = 3, pv_total_5yr_funding = 535,
            pv_average_change_percent = - 21.67, pv_major_trend = ''Decrease'',
            pv_funding = [(2021, 300), (2022, 235)]\<rparr>,
          \<lparr>pv_recipient_name = KStr ''BETA'', pv_award_count = 2, pv_total_5yr_funding = 390,
            pv_average_change_percent = - 5, pv_major_trend = ''Increase'',
            pv_funding = [(2021, 200), (2022, 190)]\<rparr>]"
    by simp
  have l: "[''Increase'', ''Decrease''] =
      map trend (filter (\<lambda>a. hash_key (recipient_name a)
          = Inr (pv_recipient_name \<lparr>pv_recipient_name = KStr ''BETA'', pv_award_count = 2,
            pv_total_5yr_funding = 390,
            pv_average_change_percent = - 5, pv_major_trend = ''Increase'',
            pv_funding = [(2021, 200), (2022, 190)]\<rparr>))
        [plain_row ''1'' ''ACME'' ''Decrease'' (- 30), plain_row ''2'' ''BETA'' ''Increase'' 40,
         plain_row ''3'' ''ACME'' ''Increase'' 25, plain_row ''4'' ''BETA'' ''Decrease'' (- 50),
         plain_row ''5'' ''ACME'' ''Decrease'' (- 60)])"
    by (simp add: plain_row_def hash_key_def)
  have d: "distinct (remdups [''Increase'', ''Decrease''])"
    and s: "set (remdups [''Increase'', ''Decrease'']) = set [''Increase'', ''Decrease'']"
    by simp_all
  from majority_trend_is_mode[OF e m l d s]
  have "\<forall>x \<in> set [''Increase'', ''Decrease''].
          count_list [''Increase'', ''Decrease''] x
            \<le> count_list [''Increase'', ''Decrease'']
                (pv_major_trend \<lparr>pv_recipient_name = KStr ''BETA'', pv_award_count = 2,
                   pv_total_5yr_funding = 390,
                   pv_average_change_percent = - 5, pv_major_trend = ''Increase'',
                   pv_funding = [(2021, 200), (2022, 190)]\<rparr>)"
    by (elim conjE)
  then have c: "count_list [''Increase'', ''Decrease''] ''Decrease''
       \<le> count_list [''Increase'', ''Decrease''] ''Increase''"
    by simp
  have l': "map trend (filter (\<lambda>a. hash_key (recipient_name a) = Inr (KStr ''BETA''))
        [plain_row ''1'' ''ACME'' ''Decrease'' (- 30), plain_row ''2'' ''BETA'' ''Increase'' 40,
         plain_row ''3'' ''ACME'' ''Increase'' 25, plain_row ''4'' ''BETA'' ''Decrease'' (- 50),
         plain_row ''5'' ''ACME'' ''Decrease'' (- 60)])
     = [''Increase'', ''Decrease'']"
    by (simp add: plain_row_def hash_key_def)
  have r: "remdups [''Increase'', ''Decrease''] = [''Increase'', ''Decrease'']"
    by simp
  show ?thesis
    by (intro conjI e l' r c)
qed

end
